theory Spec2Isabelle
  imports Complex_Main
begin

section \<open>Data model\<close>

text \<open>
  The module \<^verbatim>\<open>aicscytoparam/cytoparam.py\<close> works on numpy arrays and VTK meshes.
  A float is modelled by the real number it denotes. Where a claim depends on how numpy
  rounds (the relaxation step), the float64 operations are a parameter \<open>float_ops\<close> of the
  model, with the round-to-nearest instance \<open>f64\<close> below; elsewhere the arithmetic of the
  model is exact. A 3D array is a list of planes (axis z),
  each a list of rows (axis y), each a list of values (axis x), as numpy indexes it:
  \<^verbatim>\<open>a[z, y, x]\<close>. Every exception the Python raises is a value of \<open>error\<close>.
\<close>

datatype error =
    ValueError_empty_reduction
  | ValueError_coeffs nat nat
  | ValueError_interp_length
  | ValueError_interp_bounds
  | ValueError_reshape
  | ValueError_dr_shape
  | ValueError_array_not_found string "string list"
  | ValueError_shape_mismatch nat nat
  | ValueError_concatenate
  | ValueError_nan
  | IndexError
  | Undefined_GetPoint
  | ExternalError

type_synonym 'a arr3 = "'a list list list"

text \<open>
  \<open>shape3 nz ny nx a\<close>: the nested list \<open>a\<close> is a rectangular array of shape
  \<open>(nz, ny, nx)\<close>, which every numpy array is.
\<close>

definition shape3 :: "nat \<Rightarrow> nat \<Rightarrow> nat \<Rightarrow> 'a arr3 \<Rightarrow> bool" where
  "shape3 nz ny nx a =
     (length a = nz \<and> list_all (\<lambda>p. length p = ny \<and> list_all (\<lambda>r. length r = nx) p) a)"

subsection \<open>Python slices and indices\<close>

text \<open>
  \<open>slice_bounds start stop n\<close> are the first index and the end index of the Python slice
  \<^verbatim>\<open>start:stop\<close> (step 1) of a sequence of length \<open>n\<close>: a negative bound counts from
  the end, and every bound is clipped to \<open>0..n\<close>. \<open>None\<close> is an omitted bound.
\<close>

definition clip_bound :: "nat \<Rightarrow> int \<Rightarrow> nat" where
  "clip_bound n i = (if i < 0 then nat (max 0 (i + int n)) else min (nat i) n)"

definition slice_bounds :: "int option \<Rightarrow> int option \<Rightarrow> nat \<Rightarrow> nat \<times> nat" where
  "slice_bounds start stop n =
     ((case start of None \<Rightarrow> 0 | Some i \<Rightarrow> clip_bound n i),
      (case stop of None \<Rightarrow> n | Some i \<Rightarrow> clip_bound n i))"

definition py_slice :: "int option \<Rightarrow> int option \<Rightarrow> 'a list \<Rightarrow> 'a list" where
  "py_slice start stop xs =
     (case slice_bounds start stop (length xs) of (lo, hi) \<Rightarrow> take (hi - lo) (drop lo xs))"

text \<open>\<^verbatim>\<open>a[z0:z1, y0:y1, x0:x1]\<close> on a 3D array.\<close>

definition slice3 ::
  "int option \<times> int option \<Rightarrow> int option \<times> int option \<Rightarrow> int option \<times> int option \<Rightarrow>
   'a arr3 \<Rightarrow> 'a arr3" where
  "slice3 sz sy sx a =
     map (\<lambda>p. map (\<lambda>r. py_slice (fst sx) (snd sx) r) (py_slice (fst sy) (snd sy) p))
       (py_slice (fst sz) (snd sz) a)"

text \<open>
  An in-place update of a slice, \<^verbatim>\<open>xs[start:stop] op= ys\<close>: the elements outside the
  slice are kept, and \<open>f\<close> combines each element inside it with the element of \<open>ys\<close> at the
  same position of the slice. numpy requires \<open>ys\<close> to have the shape of the slice.
\<close>

definition upd_slice ::
  "int option \<Rightarrow> int option \<Rightarrow> ('a \<Rightarrow> 'b \<Rightarrow> 'a) \<Rightarrow> 'a list \<Rightarrow> 'b list \<Rightarrow> 'a list" where
  "upd_slice start stop f xs ys =
     (case slice_bounds start stop (length xs) of (lo, hi) \<Rightarrow>
        take lo xs @ map2 f (take (hi - lo) (drop lo xs)) ys @ drop (max lo hi) xs)"

text \<open>\<^verbatim>\<open>a[z0:z1, y0:y1, x0:x1] += b\<close> on 3D arrays.\<close>

definition iadd_slice3 ::
  "('a \<Rightarrow> 'a \<Rightarrow> 'a) \<Rightarrow> int option \<times> int option \<Rightarrow> int option \<times> int option \<Rightarrow>
   int option \<times> int option \<Rightarrow> 'a arr3 \<Rightarrow> 'a arr3 \<Rightarrow> 'a arr3" where
  "iadd_slice3 add sz sy sx a b =
     upd_slice (fst sz) (snd sz)
       (\<lambda>p bp. upd_slice (fst sy) (snd sy)
          (\<lambda>r br. upd_slice (fst sx) (snd sx) add r br) p bp) a b"

text \<open>
  Elementwise arithmetic of arrays of one shape and division by a scalar, with the operation
  on the elements as an argument.
\<close>

definition ew3 :: "('a \<Rightarrow> 'b \<Rightarrow> 'c) \<Rightarrow> 'a arr3 \<Rightarrow> 'b arr3 \<Rightarrow> 'c arr3" where
  "ew3 f a b = map2 (map2 (map2 f)) a b"

definition div3 :: "('a \<Rightarrow> 'a \<Rightarrow> 'a) \<Rightarrow> 'a arr3 \<Rightarrow> 'a \<Rightarrow> 'a arr3" where
  "div3 f a c = map (map (map (\<lambda>v. f v c))) a"

text \<open>
  A Python index into a sequence: a negative index counts from the end, and an index outside
  \<open>-n..n-1\<close> raises IndexError (\<open>None\<close>).
\<close>

definition py_index :: "'a list \<Rightarrow> int \<Rightarrow> 'a option" where
  "py_index xs i =
     (let n = int (length xs); j = (if i < 0 then i + n else i)
      in if 0 \<le> j \<and> j < n then Some (xs ! nat j) else None)"

text \<open>\<^verbatim>\<open>int(r)\<close> of a float: truncation towards zero.\<close>

definition py_int :: "real \<Rightarrow> int" where
  "py_int r = (if 0 \<le> r then \<lfloor>r\<rfloor> else \<lceil>r\<rceil>)"

subsection \<open>float64 arithmetic\<close>

text \<open>
  The three float64 operations the relaxation step uses. \<open>exact_ops\<close> is the arithmetic of the
  reals. \<open>f64\<close> is IEEE 754 binary64 arithmetic on finite values: the exact result rounded to
  the nearest number with a 53-bit significand, ties to the even significand (overflow,
  subnormal numbers, infinities and NaN are outside this instance).
\<close>

record float_ops =
  fadd :: "real \<Rightarrow> real \<Rightarrow> real"
  fsub :: "real \<Rightarrow> real \<Rightarrow> real"
  fdiv :: "real \<Rightarrow> real \<Rightarrow> real"

definition exact_ops :: float_ops where
  "exact_ops = \<lparr>fadd = (\<lambda>a b. a + b), fsub = (\<lambda>a b. a - b), fdiv = (\<lambda>a b. a / b)\<rparr>"

definition round_half_even :: "real \<Rightarrow> int" where
  "round_half_even r =
     (let f = \<lfloor>r\<rfloor>; d = r - of_int f
      in if d < 1 / 2 then f else if 1 / 2 < d then f + 1 else if even f then f else f + 1)"

definition f64_round :: "real \<Rightarrow> real" where
  "f64_round x =
     (if x = 0 then 0
      else let e = \<lfloor>log 2 \<bar>x\<bar>\<rfloor>; u = 2 powr (of_int e - 52)
           in u * of_int (round_half_even (x / u)))"

definition f64 :: float_ops where
  "f64 = \<lparr>fadd = (\<lambda>a b. f64_round (a + b)), fsub = (\<lambda>a b. f64_round (a - b)),
           fdiv = (\<lambda>a b. f64_round (a / b))\<rparr>"

section \<open>Cropper: \<^verbatim>\<open>get_croppped_version\<close>\<close>

text \<open>
  \<^verbatim>\<open>np.where(mem)\<close>: the indices \<open>(z, y, x)\<close> of the non-zero voxels, in C order.
\<close>

definition np_where3 :: "int arr3 \<Rightarrow> (nat \<times> nat \<times> nat) list" where
  "np_where3 a =
     concat (map (\<lambda>z. concat (map (\<lambda>y. concat (map (\<lambda>x.
        if a ! z ! y ! x \<noteq> 0 then [(z, y, x)] else [])
       [0..<length (a ! z ! y)])) [0..<length (a ! z)])) [0..<length a])"

text \<open>\<^verbatim>\<open>v.min()\<close> and \<^verbatim>\<open>v.max()\<close> of a non-empty 1D array.\<close>

definition amin :: "'a::linorder \<Rightarrow> 'a list \<Rightarrow> 'a" where
  "amin v vs = fold min vs v"

definition amax :: "'a::linorder \<Rightarrow> 'a list \<Rightarrow> 'a" where
  "amax v vs = fold max vs v"

text \<open>
  The bounds are the least and greatest index of a non-zero voxel of \<open>mem\<close> on each axis; the
  reductions raise on a volume with no non-zero voxel. Both volumes are sliced with
  \<^verbatim>\<open>[zmin:zmax, ymin:ymax, xmin:xmax]\<close>.
\<close>

definition get_croppped_version ::
  "int arr3 \<Rightarrow> int arr3 \<Rightarrow> error + (int arr3 \<times> int arr3 \<times> (nat \<times> nat \<times> nat \<times> nat \<times> nat \<times> nat))" where
  "get_croppped_version mem dna =
     (case np_where3 mem of
        [] \<Rightarrow> Inl ValueError_empty_reduction
      | i # is \<Rightarrow>
          let z = map fst (i # is);
              y = map (\<lambda>t. fst (snd t)) (i # is);
              x = map (\<lambda>t. snd (snd t)) (i # is);
              xmin = amin (hd x) (tl x);
              xmax = amax (hd x) (tl x);
              ymin = amin (hd y) (tl y);
              ymax = amax (hd y) (tl y);
              zmin = amin (hd z) (tl z);
              zmax = amax (hd z) (tl z);
              sz = (Some (int zmin), Some (int zmax));
              sy = (Some (int ymin), Some (int ymax));
              sx = (Some (int xmin), Some (int xmax))
          in Inr (slice3 sz sy sx mem, slice3 sz sy sx dna, (zmin, zmax, ymin, ymax, xmin, xmax)))"

section \<open>HeatSolver: \<^verbatim>\<open>heat_eq_step\<close>\<close>

text \<open>
  The right-hand side is evaluated on the array as it is before the assignment, then added in
  place to the interior slice \<^verbatim>\<open>omega[1:-1, 1:-1, 1:-1]\<close>. The six terms are added in
  the order of the source: x-1, x+1, y-1, y+1, z+1, z-1; the sum is divided by \<^verbatim>\<open>6.\<close>, the
  interior is subtracted, and the difference is added to the interior. Every operation is
  one float64 operation of \<open>ar\<close>.
\<close>

definition heat_eq_step :: "float_ops \<Rightarrow> real arr3 \<Rightarrow> real arr3" where
  "heat_eq_step ar omega =
     (let mid = (Some 1, Some (- 1));
          low = (None, Some (- 2));
          high = (Some 2, None)
      in iadd_slice3 (fadd ar) mid mid mid omega
           (ew3 (fsub ar)
              (div3 (fdiv ar)
                 (ew3 (fadd ar) (ew3 (fadd ar) (ew3 (fadd ar) (ew3 (fadd ar) (ew3 (fadd ar)
                    (slice3 mid mid low omega)
                    (slice3 mid mid high omega))
                    (slice3 mid low mid omega))
                    (slice3 mid high mid omega))
                    (slice3 high mid mid omega))
                    (slice3 low mid mid omega))
                 6)
              (slice3 mid mid mid omega)))"

text \<open>
  The specification of one relaxation step. A voxel is interior when it is not on the
  outermost layer of the array. \<open>face_mean\<close> is the arithmetic mean of the values of its six
  face neighbours, in the reals. \<open>relaxed ar a z y x\<close> is what the source's expression
  \<^verbatim>\<open>omega + (sum / 6. - omega)\<close> evaluates to at one voxel with the operations \<open>ar\<close>.
\<close>

definition interior :: "nat \<Rightarrow> nat \<Rightarrow> nat \<Rightarrow> nat \<Rightarrow> nat \<Rightarrow> nat \<Rightarrow> bool" where
  "interior nz ny nx z y x =
     ((1 \<le> z \<and> z + 1 < nz) \<and> (1 \<le> y \<and> y + 1 < ny) \<and> (1 \<le> x \<and> x + 1 < nx))"

definition face_mean :: "real arr3 \<Rightarrow> nat \<Rightarrow> nat \<Rightarrow> nat \<Rightarrow> real" where
  "face_mean a z y x =
     (a ! z ! y ! (x - 1) + a ! z ! y ! (x + 1) + a ! z ! (y - 1) ! x + a ! z ! (y + 1) ! x
      + a ! (z + 1) ! y ! x + a ! (z - 1) ! y ! x) / 6"

definition face_sum :: "float_ops \<Rightarrow> real arr3 \<Rightarrow> nat \<Rightarrow> nat \<Rightarrow> nat \<Rightarrow> real" where
  "face_sum ar a z y x =
     fadd ar (fadd ar (fadd ar (fadd ar (fadd ar
       (a ! z ! y ! (x - 1)) (a ! z ! y ! (x + 1))) (a ! z ! (y - 1) ! x)) (a ! z ! (y + 1) ! x))
       (a ! (z + 1) ! y ! x)) (a ! (z - 1) ! y ! x)"

definition relaxed :: "float_ops \<Rightarrow> real arr3 \<Rightarrow> nat \<Rightarrow> nat \<Rightarrow> nat \<Rightarrow> real" where
  "relaxed ar a z y x =
     fadd ar (a ! z ! y ! x) (fsub ar (fdiv ar (face_sum ar a z y x) 6) (a ! z ! y ! x))"

text \<open>
  Proof vocabulary: the three slices of \<open>heat_eq_step\<close> all keep \<open>n - 2\<close> elements of an
  axis of length \<open>n\<close>, starting at offset 0, 1 or 2.
\<close>

definition window :: "nat \<Rightarrow> 'a list \<Rightarrow> 'a list" where
  "window off xs = take (length xs - 2) (drop off xs)"

definition win3 :: "nat \<Rightarrow> nat \<Rightarrow> nat \<Rightarrow> 'a arr3 \<Rightarrow> 'a arr3" where
  "win3 oz oy ox a = map (\<lambda>p. map (window ox) (window oy p)) (window oz a)"

text \<open>\<^verbatim>\<open>np.linspace(0.0, 1.0, n)\<close>: \<open>n\<close> evenly spaced samples of \<open>[0, 1]\<close>.\<close>

definition linspace01 :: "nat \<Rightarrow> real list" where
  "linspace01 n = (if n = 1 then [0] else map (\<lambda>i. real i / real (n - 1)) [0..<n])"

section \<open>GeodesicBinner: \<^verbatim>\<open>get_geodesics\<close>\<close>

text \<open>
  \<^verbatim>\<open>bins = np.exp(np.power(np.linspace(0.0,1.0,nisos), 4))\<close>, then
  \<^verbatim>\<open>bins = 1 - (bins-bins.min())/(bins.max()-bins.min())\<close>. The reductions raise for
  \<open>nisos = 0\<close>; for \<open>nisos = 1\<close> numpy divides 0 by 0 (NaN).
\<close>

definition geodesic_bins :: "nat \<Rightarrow> error + real list" where
  "geodesic_bins nisos =
     (case map (\<lambda>t. exp (t ^ 4)) (linspace01 nisos) of
        [] \<Rightarrow> Inl ValueError_empty_reduction
      | b # bs \<Rightarrow>
          let bmin = amin b bs; bmax = amax b bs
          in Inr (map (\<lambda>v. 1 - (v - bmin) / (bmax - bmin)) (b # bs)))"

text \<open>
  \<^verbatim>\<open>np.digitize(v, bins)\<close> for increasing bins: the index \<open>i\<close> with
  \<open>bins[i-1] \<le> v < bins[i]\<close>, which is the number of bins that are at most \<open>v\<close>. The
  reversed bins \<^verbatim>\<open>bins[::-1]\<close> increase from 0 to 1 when \<open>nisos\<close> is at least 2.
\<close>

definition digitize :: "real list \<Rightarrow> real \<Rightarrow> nat" where
  "digitize bins v = length (filter (\<lambda>b. b \<le> v) bins)"

text \<open>
  The two masked assignments, voxel by voxel: a nucleus voxel gets
  \<^verbatim>\<open>1 + digitize(omega)\<close>, a cytoplasm voxel \<^verbatim>\<open>(nisos+1) + digitize(omega - 1)\<close>, every
  other voxel keeps the 0 of \<^verbatim>\<open>np.zeros_like\<close>.
\<close>

definition band_of :: "nat \<Rightarrow> real list \<Rightarrow> nat \<Rightarrow> real \<Rightarrow> nat" where
  "band_of nisos rbins m w =
     (if m = 2 then 1 + digitize rbins w
      else if m = 1 then (nisos + 1) + digitize rbins (w - 1)
      else 0)"

definition digitize_bands :: "nat \<Rightarrow> real list \<Rightarrow> nat arr3 \<Rightarrow> real arr3 \<Rightarrow> nat arr3" where
  "digitize_bands nisos rbins labels omega = map2 (map2 (map2 (band_of nisos rbins))) labels omega"

text \<open>
  \<^verbatim>\<open>z, y, x = np.where(mask==2)\<close> and the voxel
  \<^verbatim>\<open>(int(z.mean()), int(y.mean()), int(x.mean()))\<close>. The mean of no index is NaN, and
  \<^verbatim>\<open>int\<close> raises on it.
\<close>

definition where_eq3 :: "nat \<Rightarrow> nat arr3 \<Rightarrow> (nat \<times> nat \<times> nat) list" where
  "where_eq3 v a =
     concat (map (\<lambda>z. concat (map (\<lambda>y. concat (map (\<lambda>x.
        if a ! z ! y ! x = v then [(z, y, x)] else [])
       [0..<length (a ! z ! y)])) [0..<length (a ! z)])) [0..<length a])"

definition nuclear_centroid :: "nat arr3 \<Rightarrow> error + (nat \<times> nat \<times> nat)" where
  "nuclear_centroid labels =
     (case where_eq3 2 labels of
        [] \<Rightarrow> Inl ValueError_nan
      | i # is \<Rightarrow>
          let n = length (i # is)
          in Inr (sum_list (map fst (i # is)) div n,
                  sum_list (map (\<lambda>t. fst (snd t)) (i # is)) div n,
                  sum_list (map (\<lambda>t. snd (snd t)) (i # is)) div n))"

text \<open>\<^verbatim>\<open>a[z, y, x] = v\<close> for an index inside the array.\<close>

definition set3 :: "nat \<times> nat \<times> nat \<Rightarrow> 'a \<Rightarrow> 'a arr3 \<Rightarrow> 'a arr3" where
  "set3 c v a =
     (case c of (z, y, x) \<Rightarrow> a[z := (a ! z)[y := (a ! z ! y)[x := v]]])"

text \<open>
  \<^verbatim>\<open>geodists.astype(np.uint8)\<close> (the values are whole numbers; the cast reduces them
  modulo 256), then \<^verbatim>\<open>geodists[geodists==0] = 1 + geodists.max()\<close>.
\<close>

definition astype_uint8 :: "nat arr3 \<Rightarrow> nat arr3" where
  "astype_uint8 a = map (map (map (\<lambda>v. v mod 256))) a"

definition fill_unresolved :: "nat arr3 \<Rightarrow> error + nat arr3" where
  "fill_unresolved a =
     (case concat (concat a) of
        [] \<Rightarrow> Inl ValueError_empty_reduction
      | v # vs \<Rightarrow>
          let mx = amax v vs
          in Inr (map (map (map (\<lambda>u. if u = 0 then (1 + mx) mod 256 else u))) a))"

text \<open>
  \<^verbatim>\<open>np.where(b)\<close> of a boolean array: the indices of the True voxels, in C order; and
  \<^verbatim>\<open>a[idx] = v\<close> for such index arrays.
\<close>

definition where_true :: "bool arr3 \<Rightarrow> (nat \<times> nat \<times> nat) list" where
  "where_true a =
     concat (map (\<lambda>z. concat (map (\<lambda>y. concat (map (\<lambda>x.
        if a ! z ! y ! x then [(z, y, x)] else [])
       [0..<length (a ! z ! y)])) [0..<length (a ! z)])) [0..<length a])"

definition assign_at :: "(nat \<times> nat \<times> nat) list \<Rightarrow> 'a \<Rightarrow> 'a arr3 \<Rightarrow> 'a arr3" where
  "assign_at idx v a = fold (\<lambda>c. set3 c v) idx a"

text \<open>
  The Dirichlet boundary condition, lines 89-91 and again 98-100:
  \<^verbatim>\<open>omega[freez] = tmin; omega[colds] = tmid; omega[warms] = tmax\<close>, in this order.
\<close>

definition dirichlet ::
  "real \<Rightarrow> real \<Rightarrow> real \<Rightarrow>
   (nat \<times> nat \<times> nat) list \<Rightarrow> (nat \<times> nat \<times> nat) list \<Rightarrow> (nat \<times> nat \<times> nat) list \<Rightarrow>
   real arr3 \<Rightarrow> real arr3" where
  "dirichlet tmin tmid tmax freez colds warms omega =
     assign_at warms tmax (assign_at colds tmid (assign_at freez tmin omega))"

text \<open>\<^verbatim>\<open>a[z0:z1, y0:y1, x0:x1] = b\<close> on 3D arrays.\<close>

definition assign_slice3 ::
  "int option \<times> int option \<Rightarrow> int option \<times> int option \<Rightarrow> int option \<times> int option \<Rightarrow>
   'a arr3 \<Rightarrow> 'a arr3 \<Rightarrow> 'a arr3" where
  "assign_slice3 sz sy sx a b =
     upd_slice (fst sz) (snd sz)
       (\<lambda>p bp. upd_slice (fst sy) (snd sy)
          (\<lambda>r br. upd_slice (fst sx) (snd sx) (\<lambda>v w. w) r br) p bp) a b"

text \<open>
  The whole of \<^verbatim>\<open>get_geodesics\<close>, line by line. The label volumes \<open>seg_mem\<close> and \<open>seg_dna\<close>
  are integer arrays of one shape; the result \<^verbatim>\<open>np.zeros_like(seg_mem)\<close> has the dtype of
  \<open>seg_mem\<close>, which holds every \<^verbatim>\<open>uint8\<close> band. \<open>labels\<close> is the variable \<^verbatim>\<open>mask\<close> of the
  source (0 background, 1 cytoplasm, 2 nucleus).

  Three routines of scipy and scikit-image are arguments of the model:
  \<^verbatim>\<open>scimorph.distance_transform_edt\<close>, \<^verbatim>\<open>skseg.find_boundaries\<close> (with
  \<^verbatim>\<open>connectivity=1, mode='thick'\<close>) and \<^verbatim>\<open>skmorpho.binary_dilation\<close> (with the
  13 x 13 x 13 structuring element of ones). Each returns an array of the shape of its
  argument, so every index taken from their results lies inside \<open>omega\<close>. The float64
  operations of the relaxation are the argument \<open>ar\<close>; \<open>exp\<close> and \<open>ln\<close> are the real functions.

  The order of the source is kept: the crop (line 59), the labels, \<^verbatim>\<open>int(edtm.max())\<close>
  (line 66), the three boundary sets with the centroid of the nucleus voxels (lines 77-86),
  the initial state and \<^verbatim>\<open>50*dmax\<close> relaxation steps, each followed by the boundary
  condition (lines 89-100), the background and the logarithm (lines 102-103), the two
  masked digitizations, the centroid, the cast and the fill of the zeros (lines 106-118),
  and the write-back into the volume of the shape of the input at
  \<^verbatim>\<open>[roi[0]:roi[1], roi[2]:roi[3], roi[4]:roi[5]]\<close> with the remaining zeros set to
  \<^verbatim>\<open>geodists.max()\<close> (lines 120-122).
\<close>

definition get_geodesics ::
  "float_ops \<Rightarrow> (bool arr3 \<Rightarrow> real arr3) \<Rightarrow> (bool arr3 \<Rightarrow> bool arr3) \<Rightarrow> (bool arr3 \<Rightarrow> bool arr3) \<Rightarrow>
   int arr3 \<Rightarrow> int arr3 \<Rightarrow> nat \<Rightarrow> error + nat arr3" where
  "get_geodesics ar distance_transform_edt find_boundaries binary_dilation seg_mem seg_dna nisos =
     (let geodesics = map (map (map (\<lambda>_. 0))) seg_mem
      in case get_croppped_version seg_mem seg_dna of
           Inl e \<Rightarrow> Inl e
         | Inr (mem, dna, (zmin, zmax, ymin, ymax, xmin, xmax)) \<Rightarrow>
             (let labels = ew3 (\<lambda>m d. (if 0 < m then 1 else 0) + (if 0 < d then 1 else 0)) mem dna;
                  edtm = distance_transform_edt (map (map (map (\<lambda>m. 0 < m))) labels)
              in case concat (concat edtm) of
                   [] \<Rightarrow> Inl ValueError_empty_reduction
                 | d # ds \<Rightarrow>
                     (let dmax = py_int (amax d ds);
                          tmin = exp 0;
                          tmid = exp 1;
                          tmax = exp 2;
                          omega = map (map (map (\<lambda>_. tmid * 1))) labels;
                          warms = find_boundaries (map (map (map (\<lambda>m. 0 < m))) labels);
                          colds = find_boundaries (map (map (map (\<lambda>m. 1 < m))) labels)
                      in case nuclear_centroid labels of
                           Inl e \<Rightarrow> Inl e
                         | Inr c \<Rightarrow>
                             (let freez = binary_dilation
                                            (set3 c True (map (map (map (\<lambda>_. False))) colds));
                                  warms = where_true warms;
                                  colds = where_true colds;
                                  freez = where_true freez;
                                  omega = dirichlet tmin tmid tmax freez colds warms omega;
                                  omega = ((\<lambda>w. dirichlet tmin tmid tmax freez colds warms (heat_eq_step ar w))
                                             ^^ nat (50 * dmax)) omega;
                                  omega = ew3 (\<lambda>m w. if m = 0 then 0 else w) labels omega;
                                  omega = map (map (map (\<lambda>w. if 0 < w then ln w else w))) omega
                              in case geodesic_bins nisos of
                                   Inl e \<Rightarrow> Inl e
                                 | Inr bins \<Rightarrow>
                                     (case fill_unresolved (astype_uint8 (set3 c 1
                                             (digitize_bands nisos (rev bins) labels omega))) of
                                        Inl e \<Rightarrow> Inl e
                                      | Inr geodists \<Rightarrow>
                                          (case concat (concat geodists) of
                                             [] \<Rightarrow> Inl ValueError_empty_reduction
                                           | g # gs \<Rightarrow>
                                               Inr (map (map (map (\<lambda>u. if u = 0 then amax g gs else u)))
                                                 (assign_slice3
                                                    (Some (int zmin), Some (int zmax))
                                                    (Some (int ymin), Some (int ymax))
                                                    (Some (int xmin), Some (int xmax))
                                                    geodesics geodists))))))))"

section \<open>Meshes\<close>

text \<open>
  A VTK polydata, as far as the module uses it: the ordered points \<open>(x, y, z)\<close>, the
  polylines (each a list of point ids) and the named one-component point arrays.
\<close>

type_synonym point = "real \<times> real \<times> real"

record polydata =
  points :: "point list"
  lines :: "nat list list"
  point_data :: "(string \<times> real list) list"

text \<open>
  \<^verbatim>\<open>GetPointData().AddArray(a)\<close>: an array of the same name is replaced, otherwise the
  array is appended. \<^verbatim>\<open>GetPointData().GetArray(name)\<close> is the first array of that name.
\<close>

fun AddArray :: "string \<Rightarrow> real list \<Rightarrow> (string \<times> real list) list \<Rightarrow> (string \<times> real list) list" where
  "AddArray name arr [] = [(name, arr)]"
| "AddArray name arr ((k, v) # rest) =
     (if k = name then (name, arr) # rest else (k, v) # AddArray name arr rest)"

definition GetArray :: "polydata \<Rightarrow> string \<Rightarrow> real list option" where
  "GetArray pd name = map_of (point_data pd) name"

text \<open>
  \<^verbatim>\<open>GetPoint(i)\<close>. VTK does not check the index; a read past the last point is undefined
  there and is an error of the model.
\<close>

definition GetPoint :: "polydata \<Rightarrow> nat \<Rightarrow> point option" where
  "GetPoint pd i = (if i < length (points pd) then Some (points pd ! i) else None)"

section \<open>ImageProbe: \<^verbatim>\<open>prob_image\<close>\<close>

text \<open>\<^verbatim>\<open>img.min()\<close>: the global minimum; it raises on a volume with no voxel.\<close>

definition vol_min :: "real arr3 \<Rightarrow> error + real" where
  "vol_min img =
     (case concat (concat img) of [] \<Rightarrow> Inl ValueError_empty_reduction | v # vs \<Rightarrow> Inr (amin v vs))"

text \<open>\<^verbatim>\<open>img[iz, iy, ix]\<close> with Python indices; \<open>None\<close> is the IndexError.\<close>

definition img_at :: "real arr3 \<Rightarrow> int \<Rightarrow> int \<Rightarrow> int \<Rightarrow> real option" where
  "img_at img iz iy ix =
     (case py_index img iz of None \<Rightarrow> None
      | Some p \<Rightarrow> (case py_index p iy of None \<Rightarrow> None | Some r \<Rightarrow> py_index r ix))"

text \<open>
  The body of the loop over the points: \<^verbatim>\<open>v = vmin\<close>, then
  \<^verbatim>\<open>v = img[int(r[2]), int(r[1]), int(r[0])]\<close> under a bare \<^verbatim>\<open>except: pass\<close>.
\<close>

definition probe_point :: "real arr3 \<Rightarrow> real \<Rightarrow> point \<Rightarrow> real" where
  "probe_point img vmin r =
     (case r of (x, y, z) \<Rightarrow>
        (case img_at img (py_int z) (py_int y) (py_int x) of Some v \<Rightarrow> v | None \<Rightarrow> vmin))"

fun prob_image :: "polydata \<Rightarrow> (real arr3 \<times> string) list \<Rightarrow> error + polydata" where
  "prob_image pd [] = Inr pd"
| "prob_image pd ((img, name) # rest) =
     (case vol_min img of
        Inl e \<Rightarrow> Inl e
      | Inr vmin \<Rightarrow>
          prob_image
            (pd\<lparr>point_data := AddArray name (map (probe_point img vmin) (points pd)) (point_data pd)\<rparr>)
            rest)"

text \<open>\<^verbatim>\<open>if images_to_probe is not None: mesh = prob_image(mesh, images_to_probe)\<close>\<close>

definition prob_image_opt :: "polydata \<Rightarrow> (real arr3 \<times> string) list option \<Rightarrow> error + polydata" where
  "prob_image_opt pd images_to_probe =
     (case images_to_probe of None \<Rightarrow> Inr pd | Some images \<Rightarrow> prob_image pd images)"

section \<open>TraceBuilder: \<^verbatim>\<open>get_traces\<close>\<close>

text \<open>\<^verbatim>\<open>np.sqrt(((np.array(ro) - np.array(r))**2).sum())\<close>\<close>

definition dist3 :: "point \<Rightarrow> point \<Rightarrow> real" where
  "dist3 ro r =
     (case ro of (a, b, c) \<Rightarrow> case r of (x, y, z) \<Rightarrow> sqrt ((a - x)\<^sup>2 + (b - y)\<^sup>2 + (c - z)\<^sup>2))"

text \<open>
  The inner loop \<^verbatim>\<open>for iso, r in enumerate(trace)\<close> with its state \<open>dr\<close>, \<open>ro\<close>: the pair
  \<open>(isoval, length)\<close> inserted for every point of the trace.
\<close>

fun trace_scalars :: "nat \<Rightarrow> real \<Rightarrow> point \<Rightarrow> point list \<Rightarrow> (real \<times> real) list" where
  "trace_scalars isoval dr ro [] = []"
| "trace_scalars isoval dr ro (r # rs) =
     (let dr' = dr + dist3 ro r in (real isoval, dr') # trace_scalars (Suc isoval) dr' r rs)"

text \<open>\<^verbatim>\<open>trace = [mesh.GetPoint(i) for mesh in meshes]\<close>\<close>

fun collect_trace :: "polydata list \<Rightarrow> nat \<Rightarrow> point list option" where
  "collect_trace [] i = Some []"
| "collect_trace (mesh # meshes) i =
     (case GetPoint mesh i of
        None \<Rightarrow> None
      | Some r \<Rightarrow> (case collect_trace meshes i of None \<Rightarrow> None | Some rs \<Rightarrow> Some (r # rs)))"

record trace_state =
  pts :: "point list"
  cellarray :: "nat list list"
  scalars_isoval :: "real list"
  scalars_length :: "real list"

text \<open>
  One iteration of the loop over the point indices, with \<^verbatim>\<open>dr = 0.0\<close> and
  \<^verbatim>\<open>ro = [0,0,0]\<close> at the start of every trace. \<^verbatim>\<open>InsertNextPoint\<close> returns the number
  of points inserted before.
\<close>

definition emit_trace :: "trace_state \<Rightarrow> point list \<Rightarrow> trace_state" where
  "emit_trace st trace =
     (let pid0 = length (pts st); sc = trace_scalars 0 0 (0, 0, 0) trace
      in \<lparr>pts = pts st @ trace,
          cellarray = cellarray st @ [[pid0..<pid0 + length trace]],
          scalars_isoval = scalars_isoval st @ map fst sc,
          scalars_length = scalars_length st @ map snd sc\<rparr>)"

fun traces_loop :: "polydata list \<Rightarrow> nat list \<Rightarrow> trace_state \<Rightarrow> error + trace_state" where
  "traces_loop meshes [] st = Inr st"
| "traces_loop meshes (i # is) st =
     (case collect_trace meshes i of
        None \<Rightarrow> Inl Undefined_GetPoint
      | Some trace \<Rightarrow> traces_loop meshes is (emit_trace st trace))"

definition get_traces :: "polydata list \<Rightarrow> (real arr3 \<times> string) list option \<Rightarrow> error + polydata" where
  "get_traces meshes images_to_probe =
     (case meshes of
        [] \<Rightarrow> Inl IndexError
      | m0 # _ \<Rightarrow>
          (case traces_loop meshes [0..<length (points m0)]
                  \<lparr>pts = [], cellarray = [], scalars_isoval = [], scalars_length = []\<rparr> of
             Inl e \<Rightarrow> Inl e
           | Inr st \<Rightarrow>
               prob_image_opt
                 \<lparr>points = pts st, lines = cellarray st,
                  point_data =
                    AddArray ''length'' (scalars_length st)
                      (AddArray ''isoval'' (scalars_isoval st) [])\<rparr>
                 images_to_probe))"

section \<open>SignalAverager: \<^verbatim>\<open>copy_content\<close>\<close>

text \<open>
  The file system as the function sees it: \<open>fs source = None\<close> when
  \<^verbatim>\<open>os.path.exists(source)\<close> is false, and otherwise the mesh the VTK reader yields for
  the path.
\<close>

type_synonym filesystem = "string \<Rightarrow> polydata option"

text \<open>
  \<^verbatim>\<open>smax = scalars.max()\<close> raises on an empty array, whatever the flag \<^verbatim>\<open>normalize\<close>
  is (written \<open>normalise\<close> here, \<open>normalize\<close> being a constant of the library); then
  \<^verbatim>\<open>if normalize & (smax > 0.): scalars /= smax\<close>.
\<close>

definition normalize_scalars :: "bool \<Rightarrow> real list \<Rightarrow> error + real list" where
  "normalize_scalars normalise scalars =
     (case scalars of
        [] \<Rightarrow> Inl ValueError_empty_reduction
      | v # vs \<Rightarrow>
          let smax = amax v vs
          in Inr (if normalise \<and> smax > 0 then map (\<lambda>s. s / smax) scalars else scalars))"

text \<open>
  The loop \<^verbatim>\<open>for arr, array in enumerate(arrays)\<close> over one source mesh; \<open>data\<close> holds the
  accumulators \<^verbatim>\<open>data[arr:]\<close> that are still to be visited. \<^verbatim>\<open>vtk_to_numpy\<close> returns a
  view of the mesh's array, so the division writes the normalized values into the mesh that
  was read: a later request of the same name reads them.
\<close>

fun accumulate_source :: "bool \<Rightarrow> polydata \<Rightarrow> string list \<Rightarrow> real list list \<Rightarrow> error + real list list" where
  "accumulate_source normalise mesh (array # arrays) (d # data) =
     (let available_arrays = map fst (point_data mesh)
      in if array \<notin> set available_arrays
         then Inl (ValueError_array_not_found array available_arrays)
         else
           (case GetArray mesh array of
              None \<Rightarrow> Inl (ValueError_array_not_found array available_arrays)
            | Some scalars \<Rightarrow>
                if length scalars \<noteq> length d
                then Inl (ValueError_shape_mismatch (length scalars) (length d))
                else
                  (case normalize_scalars normalise scalars of
                     Inl e \<Rightarrow> Inl e
                   | Inr scalars' \<Rightarrow>
                       (case accumulate_source normalise
                               (mesh\<lparr>point_data := AddArray array scalars' (point_data mesh)\<rparr>)
                               arrays data of
                          Inl e \<Rightarrow> Inl e
                        | Inr data' \<Rightarrow> Inr (map2 (\<lambda>a b. a + b) d scalars' # data')))))"
| "accumulate_source normalise mesh arrays data = Inr data"

text \<open>The loop over the sources: a path that does not exist is skipped.\<close>

fun copy_sources ::
  "bool \<Rightarrow> filesystem \<Rightarrow> string list \<Rightarrow> string list \<Rightarrow> real list list \<Rightarrow> error + real list list" where
  "copy_sources normalise fs [] arrays data = Inr data"
| "copy_sources normalise fs (source # sources) arrays data =
     (case fs source of
        None \<Rightarrow> copy_sources normalise fs sources arrays data
      | Some mesh \<Rightarrow>
          (case accumulate_source normalise mesh arrays data of
             Inl e \<Rightarrow> Inl e
           | Inr data' \<Rightarrow> copy_sources normalise fs sources arrays data'))"

text \<open>
  The last loop divides every accumulator by \<^verbatim>\<open>len(sources)\<close> and attaches it to the
  destination under the name \<^verbatim>\<open>f'{name}_avg'\<close>. With no source at all numpy divides 0 by 0
  (NaN, no exception); the theorems below are about at least one listed source.
\<close>

definition attach_avg :: "nat \<Rightarrow> real list \<times> string \<Rightarrow> polydata \<Rightarrow> polydata" where
  "attach_avg n an destination =
     destination\<lparr>point_data :=
        AddArray (snd an @ ''_avg'') (map (\<lambda>v. v / real n) (fst an)) (point_data destination)\<rparr>"

definition copy_content ::
  "filesystem \<Rightarrow> string list \<Rightarrow> polydata \<Rightarrow> string list \<Rightarrow> bool \<Rightarrow> error + polydata" where
  "copy_content fs sources destination arrays normalise =
     (let npts = length (points destination);
          data = map (\<lambda>array. replicate npts 0) arrays
      in case copy_sources normalise fs sources arrays data of
           Inl e \<Rightarrow> Inl e
         | Inr data' \<Rightarrow> Inr (fold (attach_avg (length sources)) (zip data' arrays) destination))"

text \<open>
  The specification: the meshes of the listed sources that exist, the array of a name after
  the optional normalization, and the pointwise sum of these arrays over the existing
  sources.
\<close>

definition existing_sources :: "filesystem \<Rightarrow> string list \<Rightarrow> polydata list" where
  "existing_sources fs sources = concat (map (\<lambda>s. case fs s of None \<Rightarrow> [] | Some m \<Rightarrow> [m]) sources)"

definition normalized :: "bool \<Rightarrow> real list \<Rightarrow> real list" where
  "normalized normalise a =
     (if normalise \<and> 0 < Max (set a) then map (\<lambda>s. s / Max (set a)) a else a)"

definition array_of :: "polydata \<Rightarrow> string \<Rightarrow> real list" where
  "array_of m name = (case GetArray m name of None \<Rightarrow> [] | Some a \<Rightarrow> a)"

definition source_sum :: "bool \<Rightarrow> polydata list \<Rightarrow> string \<Rightarrow> nat \<Rightarrow> real list" where
  "source_sum normalise meshes name npts =
     map (\<lambda>i. sum_list (map (\<lambda>m. normalized normalise (array_of m name) ! i) meshes)) [0..<npts]"

text \<open>
  The precondition of the averaging: every listed source that exists holds every requested
  array, with one value per point of the destination and at least one value.
\<close>

definition valid_sources :: "filesystem \<Rightarrow> string list \<Rightarrow> string list \<Rightarrow> nat \<Rightarrow> bool" where
  "valid_sources fs sources arrays npts =
     list_all (\<lambda>m. list_all (\<lambda>name.
        case GetArray m name of None \<Rightarrow> False | Some a \<Rightarrow> length a = npts \<and> a \<noteq> []) arrays)
       (existing_sources fs sources)"

section \<open>ShellInterpolator: \<^verbatim>\<open>get_equipotential_surfaces_from_sh_coeffs\<close>\<close>

text \<open>\<^verbatim>\<open>np.cumsum\<close> and the normalized breakpoints.\<close>

fun cumsum_from :: "real \<Rightarrow> real list \<Rightarrow> real list" where
  "cumsum_from acc [] = []"
| "cumsum_from acc (v # vs) = (acc + v) # cumsum_from (acc + v) vs"

text \<open>
  \<^verbatim>\<open>iso_values = np.cumsum([0.0] + nisos); iso_values = iso_values / iso_values[-1]\<close>.
  When the counts sum to 0 numpy divides 0 by 0 (NaN); the theorems assume a positive sum.
\<close>

definition iso_values_of :: "nat list \<Rightarrow> real list" where
  "iso_values_of nisos =
     (let c = cumsum_from 0 (0 # map real nisos) in map (\<lambda>v. v / last c) c)"

text \<open>
  \<^verbatim>\<open>np.c_[a, b, c]\<close> of three 1D arrays: the rows \<open>[a[i], b[i], c[i]]\<close>; it raises when the
  lengths differ.
\<close>

definition np_c3 :: "real list \<Rightarrow> real list \<Rightarrow> real list \<Rightarrow> error + real list list" where
  "np_c3 a b c =
     (if length a = length b \<and> length b = length c
      then Inr (map (\<lambda>i. [a ! i, b ! i, c ! i]) [0..<length a])
      else Inl ValueError_concatenate)"

text \<open>
  \<^verbatim>\<open>scipy.interpolate.interp1d(x, y)\<close>, linear, along the last axis of the 2D array \<open>y\<close>
  (given by its rows, \<open>ncols\<close> values each). The constructor raises when \<open>x\<close> has not one
  entry per column. A call raises outside \<open>[x[0], x[-1]]\<close>; inside, it locates the segment
  with \<^verbatim>\<open>searchsorted(x, x_new).clip(1, len(x) - 1)\<close> and evaluates
  \<^verbatim>\<open>slope * (x_new - x_lo) + y_lo\<close> on every row. \<open>x\<close> is sorted here (a cumulative sum of
  counts). Where two breakpoints coincide the slope is a division by zero (NaN in numpy, 0
  in HOL); the number and the shape of the results do not depend on it.
\<close>

definition searchsorted_left :: "real list \<Rightarrow> real \<Rightarrow> nat" where
  "searchsorted_left x v = length (filter (\<lambda>a. a < v) x)"

definition interp_linear :: "real list \<Rightarrow> real list \<Rightarrow> real \<Rightarrow> real" where
  "interp_linear x y x_new =
     (let hi = min (max (searchsorted_left x x_new) 1) (length x - 1);
          lo = hi - 1;
          slope = (y ! hi - y ! lo) / (x ! hi - x ! lo)
      in slope * (x_new - x ! lo) + y ! lo)"

definition interp1d_call :: "real list \<Rightarrow> real list list \<Rightarrow> real \<Rightarrow> error + real list" where
  "interp1d_call x y x_new =
     (if x_new < hd x \<or> last x < x_new then Inl ValueError_interp_bounds
      else Inr (map (\<lambda>row. interp_linear x row x_new) y))"

definition interp1d :: "real list \<Rightarrow> nat \<Rightarrow> real list list \<Rightarrow> error + (real \<Rightarrow> error + real list)" where
  "interp1d x ncols y =
     (if length x = ncols then Inr (interp1d_call x y) else Inl ValueError_interp_length)"

text \<open>The number of columns of a 2D array given by its rows (0 for the empty array).\<close>

definition last_dim :: "real list list \<Rightarrow> nat" where
  "last_dim rows = (case rows of [] \<Rightarrow> 0 | r # _ \<Rightarrow> length r)"

text \<open>\<^verbatim>\<open>xs.reshape(a, b, c)\<close> of a 1D array, in C order.\<close>

definition reshape3 :: "nat \<Rightarrow> nat \<Rightarrow> nat \<Rightarrow> 'a list \<Rightarrow> error + 'a arr3" where
  "reshape3 a b c xs =
     (if length xs = a * b * c
      then Inr (map (\<lambda>i. map (\<lambda>j. take c (drop ((i * b + j) * c) xs)) [0..<b]) [0..<a])
      else Inl ValueError_reshape)"

section \<open>\<^verbatim>\<open>translate_mesh\<close>\<close>

text \<open>
  \<open>dr\<close> is a 2D array given by its rows; its shape must be \<open>(1, 3)\<close>. The displacement is
  added to every point.
\<close>

definition translate_mesh :: "polydata \<Rightarrow> real list list \<Rightarrow> error + polydata" where
  "translate_mesh polydata dr =
     (if length dr = 1 \<and> length (hd dr) = 3
      then Inr (polydata\<lparr>points :=
                  map (\<lambda>r. case r of (x, y, z) \<Rightarrow> (x + hd dr ! 0, y + hd dr ! 1, z + hd dr ! 2))
                    (points polydata)\<rparr>)
      else Inl ValueError_dr_shape)"

section \<open>The shell sequence\<close>

text \<open>
  The external reconstruction routine \<^verbatim>\<open>shtools.get_reconstruction_from_coeffs\<close> is a
  parameter \<open>reconstruct\<close> of the model: it maps a coefficient array of shape
  \<open>(2, lmax+1, lmax+1)\<close> to a mesh, or fails (\<open>None\<close>).

  One iteration of the loop over the samples \<open>s\<close>: interpolate and reshape the coefficients,
  reconstruct, translate by the interpolated centroid (reshaped to \<open>(1, 3)\<close>), probe.
\<close>

definition shell_at ::
  "(real arr3 \<Rightarrow> polydata option) \<Rightarrow> (real \<Rightarrow> error + real list) \<Rightarrow> int \<Rightarrow>
   (real \<Rightarrow> error + real list) option \<Rightarrow> (real arr3 \<times> string) list option \<Rightarrow> real \<Rightarrow>
   error + polydata" where
  "shell_at reconstruct coeffs_interpolator lmax centroids_interpolator images_to_probe s =
     (case coeffs_interpolator s of
        Inl e \<Rightarrow> Inl e
      | Inr cs \<Rightarrow>
     (case reshape3 2 (nat (lmax + 1)) (nat (lmax + 1)) cs of
        Inl e \<Rightarrow> Inl e
      | Inr coeffs \<Rightarrow>
     (case reconstruct coeffs of
        None \<Rightarrow> Inl ExternalError
      | Some mesh \<Rightarrow>
     (case (case centroids_interpolator of
              None \<Rightarrow> Inr mesh
            | Some ci \<Rightarrow>
                (case ci s of
                   Inl e \<Rightarrow> Inl e
                 | Inr c \<Rightarrow> if length c = 3 then translate_mesh mesh [c] else Inl ValueError_reshape)) of
        Inl e \<Rightarrow> Inl e
      | Inr mesh' \<Rightarrow> prob_image_opt mesh' images_to_probe))))"

fun shells_loop :: "(real \<Rightarrow> error + polydata) \<Rightarrow> real list \<Rightarrow> error + polydata list" where
  "shells_loop f [] = Inr []"
| "shells_loop f (s # ss) =
     (case f s of
        Inl e \<Rightarrow> Inl e
      | Inr mesh \<Rightarrow>
          (case shells_loop f ss of Inl e \<Rightarrow> Inl e | Inr meshes \<Rightarrow> Inr (mesh # meshes)))"

text \<open>
  The coefficient mappings are insertion-ordered dictionaries: lists of (key, value) with
  distinct keys; only their length and their values in order are used. \<open>nisos\<close> is the list of
  band counts, \<open>centroids\<close> the optional 2D array of centroid coordinates (one row per
  coordinate, one column per breakpoint).
\<close>

definition get_equipotential_surfaces_from_sh_coeffs ::
  "(real arr3 \<Rightarrow> polydata option) \<Rightarrow> (string \<times> real) list \<Rightarrow> (string \<times> real) list \<Rightarrow> nat list \<Rightarrow>
   real list list option \<Rightarrow> (real arr3 \<times> string) list option \<Rightarrow> error + polydata list" where
  "get_equipotential_surfaces_from_sh_coeffs reconstruct mem_coeffs nuc_coeffs nisos centroids
       images_to_probe =
     (let nc = length mem_coeffs;
          lmax = py_int (sqrt (real nc / 2) - 1)
      in if nc \<noteq> length nuc_coeffs then Inl (ValueError_coeffs nc (length nuc_coeffs))
         else
           (let ctr_coeffs = map (\<lambda>i. if i \<noteq> 0 then 0 else 1) [0..<nc];
                nuc = map snd nuc_coeffs;
                mem = map snd mem_coeffs
            in case np_c3 ctr_coeffs nuc mem of
                 Inl e \<Rightarrow> Inl e
               | Inr coeffs \<Rightarrow>
                   (let iso_values = iso_values_of nisos
                    in case interp1d iso_values 3 coeffs of
                         Inl e \<Rightarrow> Inl e
                       | Inr coeffs_interpolator \<Rightarrow>
                           (case (case centroids of
                                    None \<Rightarrow> Inr None
                                  | Some c \<Rightarrow>
                                      (case interp1d iso_values (last_dim c) c of
                                         Inl e \<Rightarrow> Inl e
                                       | Inr ci \<Rightarrow> Inr (Some ci))) of
                              Inl e \<Rightarrow> Inl e
                            | Inr centroids_interpolator \<Rightarrow>
                                shells_loop
                                  (shell_at reconstruct coeffs_interpolator lmax
                                     centroids_interpolator images_to_probe)
                                  (linspace01 (1 + sum_list nisos))))))"

text \<open>
  Valid optional arguments: the centroid array has shape \<open>(3, 3)\<close> (three coordinates, one
  column per breakpoint), and no probed volume is empty (\<^verbatim>\<open>img.min()\<close> raises on an empty
  volume).
\<close>

definition centroids_ok :: "real list list option \<Rightarrow> bool" where
  "centroids_ok centroids =
     (case centroids of None \<Rightarrow> True | Some c \<Rightarrow> length c = 3 \<and> list_all (\<lambda>r. length r = 3) c)"

definition images_ok :: "(real arr3 \<times> string) list option \<Rightarrow> bool" where
  "images_ok images_to_probe =
     (case images_to_probe of
        None \<Rightarrow> True
      | Some images \<Rightarrow> list_all (\<lambda>im. concat (concat (fst im)) \<noteq> []) images)"

section \<open>\<^verbatim>\<open>parametrize\<close>\<close>

text \<open>
  The external descriptor fit \<^verbatim>\<open>shparam.get_shcoeffs(image, lmax, sigma, compute_lcc,
  alignment_2d)\<close> is a parameter \<open>get_shcoeffs\<close> of the model; of its result the function
  keeps the coefficient mapping and the centroid. \<open>None\<close> is a failure of the fit.
\<close>

type_synonym shcoeffs_fit =
  "int arr3 \<Rightarrow> nat \<Rightarrow> real \<Rightarrow> bool \<Rightarrow> bool \<Rightarrow> ((string \<times> real) list \<times> real list) option"

definition parametrize ::
  "shcoeffs_fit \<Rightarrow> (real arr3 \<Rightarrow> polydata option) \<Rightarrow> int arr3 \<Rightarrow> int arr3 \<Rightarrow> nat \<Rightarrow> real \<Rightarrow>
   nat list \<Rightarrow> (real arr3 \<times> string) list option \<Rightarrow> error + (polydata list \<times> polydata)" where
  "parametrize get_shcoeffs reconstruct seg_mem seg_nuc lmax sigma nisos images_to_probe =
     (case get_shcoeffs seg_mem 32 1 True False of
        None \<Rightarrow> Inl ExternalError
      | Some (mem_coeffs, mem_centroid) \<Rightarrow>
     (case get_shcoeffs seg_nuc 32 1 True False of
        None \<Rightarrow> Inl ExternalError
      | Some (nuc_coeffs, nuc_centroid) \<Rightarrow>
     (case np_c3 nuc_centroid nuc_centroid mem_centroid of
        Inl e \<Rightarrow> Inl e
      | Inr centroids \<Rightarrow>
     (case get_equipotential_surfaces_from_sh_coeffs reconstruct mem_coeffs nuc_coeffs nisos
             (Some centroids) images_to_probe of
        Inl e \<Rightarrow> Inl e
      | Inr meshes \<Rightarrow>
     (case get_traces meshes images_to_probe of
        Inl e \<Rightarrow> Inl e
      | Inr traces \<Rightarrow> Inr (meshes, traces))))))"

section \<open>Properties of the slices\<close>

lemma clip_bound_simps:
  "clip_bound n 1 = min 1 n" "clip_bound n 2 = min 2 n"
  "clip_bound n (- 1) = n - 1" "clip_bound n (- 2) = n - 2"
  by (auto simp: clip_bound_def)

lemma slice_bounds_inner: "slice_bounds (Some 1) (Some (- 1)) n = (min 1 n, n - 1)"
  by (simp add: slice_bounds_def clip_bound_simps)

lemma py_slice_inner: "py_slice (Some 1) (Some (- 1)) xs = take (length xs - 2) (drop 1 xs)"
proof (cases "length xs = 0")
  case True
  then show ?thesis by (simp add: py_slice_def slice_bounds_inner)
next
  case False
  then have "min 1 (length xs) = 1" and "length xs - 1 - 1 = length xs - 2" by arith+
  then show ?thesis by (simp add: py_slice_def slice_bounds_inner)
qed

lemma py_slice_before: "py_slice None (Some (- 2)) xs = take (length xs - 2) xs"
  by (simp add: py_slice_def slice_bounds_def clip_bound_simps)

lemma py_slice_after: "py_slice (Some 2) None xs = drop 2 xs"
proof -
  have "length xs - min 2 (length xs) = length xs - 2" by arith
  moreover have "drop (min 2 (length xs)) xs = drop 2 xs"
    by (cases "2 \<le> length xs") (simp_all add: min_def)
  ultimately show ?thesis
    by (simp add: py_slice_def slice_bounds_def clip_bound_simps)
qed

lemma upd_slice_inner:
  assumes "2 \<le> length xs"
  shows "upd_slice (Some 1) (Some (- 1)) f xs ys =
           take 1 xs @ map2 f (take (length xs - 2) (drop 1 xs)) ys @ drop (length xs - 1) xs"
proof -
  from assms have "min 1 (length xs) = 1" "length xs - 1 - 1 = length xs - 2"
    "max 1 (length xs - 1) = length xs - 1" by arith+
  then show ?thesis by (simp add: upd_slice_def slice_bounds_inner)
qed

lemma upd_slice_inner_length:
  assumes "2 \<le> length xs" "length ys = length xs - 2"
  shows "length (upd_slice (Some 1) (Some (- 1)) f xs ys) = length xs"
  using assms by (simp add: upd_slice_inner)

lemma upd_slice_inner_nth:
  assumes "2 \<le> length xs" "length ys = length xs - 2" "i < length xs"
  shows "upd_slice (Some 1) (Some (- 1)) f xs ys ! i =
           (if 1 \<le> i \<and> i + 1 < length xs then f (xs ! i) (ys ! (i - 1)) else xs ! i)"
proof -
  consider "i = 0" | "1 \<le> i" "i + 1 < length xs" | "i + 1 = length xs" "1 \<le> i"
    using assms by linarith
  then show ?thesis
  proof cases
    case 1
    with assms show ?thesis by (simp add: upd_slice_inner nth_append)
  next
    case 2
    with assms have "i - 1 < length xs - 2" by arith
    with 2 assms show ?thesis by (simp add: upd_slice_inner nth_append)
  next
    case 3
    with assms have "\<not> i - 1 < length xs - 2" "i - 1 - (length xs - 2) = 0"
      "length xs - 1 = i" by arith+
    with 3 assms show ?thesis by (simp add: upd_slice_inner nth_append)
  qed
qed

lemma shape3_nth:
  "shape3 nz ny nx a \<longleftrightarrow>
     length a = nz \<and> (\<forall>z<nz. length (a ! z) = ny \<and> (\<forall>y<ny. length (a ! z ! y) = nx))"
  by (auto simp: shape3_def list_all_length)

lemma py_slice_window:
  "py_slice (Some 1) (Some (- 1)) xs = window 1 xs"
  "py_slice None (Some (- 2)) xs = window 0 xs"
  "py_slice (Some 2) None xs = window 2 xs"
  by (simp_all add: window_def py_slice_inner py_slice_before py_slice_after)

lemma window_length: "off \<le> 2 \<Longrightarrow> length (window off xs) = length xs - 2"
  by (simp add: window_def)

lemma window_nth: "off \<le> 2 \<Longrightarrow> i < length xs - 2 \<Longrightarrow> window off xs ! i = xs ! (off + i)"
  by (simp add: window_def)

lemma win3_shape:
  assumes "shape3 nz ny nx a" "oz \<le> 2" "oy \<le> 2" "ox \<le> 2"
  shows "shape3 (nz - 2) (ny - 2) (nx - 2) (win3 oz oy ox a)"
  using assms
  by (auto simp: shape3_nth win3_def window_length window_nth)

lemma win3_nth:
  assumes "shape3 nz ny nx a" "oz \<le> 2" "oy \<le> 2" "ox \<le> 2"
    and "i < nz - 2" "j < ny - 2" "k < nx - 2"
  shows "win3 oz oy ox a ! i ! j ! k = a ! (oz + i) ! (oy + j) ! (ox + k)"
  using assms
  by (auto simp: shape3_nth win3_def window_length window_nth)

lemma ew3_shape:
  "shape3 nz ny nx a \<Longrightarrow> shape3 nz ny nx b \<Longrightarrow> shape3 nz ny nx (ew3 f a b)"
  by (auto simp: shape3_nth ew3_def)

lemma ew3_nth:
  "shape3 nz ny nx a \<Longrightarrow> shape3 nz ny nx b \<Longrightarrow> i < nz \<Longrightarrow> j < ny \<Longrightarrow> k < nx \<Longrightarrow>
   ew3 f a b ! i ! j ! k = f (a ! i ! j ! k) (b ! i ! j ! k)"
  by (auto simp: shape3_nth ew3_def)

lemma div3_shape: "shape3 nz ny nx a \<Longrightarrow> shape3 nz ny nx (div3 f a c)"
  by (auto simp: shape3_nth div3_def)

lemma div3_nth:
  "shape3 nz ny nx a \<Longrightarrow> i < nz \<Longrightarrow> j < ny \<Longrightarrow> k < nx \<Longrightarrow>
   div3 f a c ! i ! j ! k = f (a ! i ! j ! k) c"
  by (auto simp: shape3_nth div3_def)

lemma iadd_inner_shape:
  assumes "shape3 nz ny nx a" "shape3 (nz - 2) (ny - 2) (nx - 2) b"
    and "2 \<le> nz" "2 \<le> ny" "2 \<le> nx"
  shows "shape3 nz ny nx
           (iadd_slice3 add (Some 1, Some (- 1)) (Some 1, Some (- 1)) (Some 1, Some (- 1)) a b)"
  using assms
  by (auto simp: shape3_nth iadd_slice3_def upd_slice_inner_length upd_slice_inner_nth)

lemma iadd_inner_nth:
  assumes "shape3 nz ny nx a" "shape3 (nz - 2) (ny - 2) (nx - 2) b"
    and "2 \<le> nz" "2 \<le> ny" "2 \<le> nx"
    and "z < nz" "y < ny" "x < nx"
  shows "iadd_slice3 add (Some 1, Some (- 1)) (Some 1, Some (- 1)) (Some 1, Some (- 1)) a b
           ! z ! y ! x =
           (if (1 \<le> z \<and> z + 1 < nz) \<and> (1 \<le> y \<and> y + 1 < ny) \<and> (1 \<le> x \<and> x + 1 < nx)
            then add (a ! z ! y ! x) (b ! (z - 1) ! (y - 1) ! (x - 1)) else a ! z ! y ! x)"
  using assms
  by (auto simp: shape3_nth iadd_slice3_def upd_slice_inner_length upd_slice_inner_nth)

section \<open>Properties of the float64 rounding\<close>

lemma round_half_even_int [simp]: "round_half_even (of_int m) = m"
  by (simp add: round_half_even_def)

lemma f64_round_0 [simp]: "f64_round 0 = 0"
  by (simp add: f64_round_def)

lemma f64_round_at:
  assumes "x \<noteq> 0" "2 powr of_int e \<le> \<bar>x\<bar>" "\<bar>x\<bar> < 2 powr (of_int e + 1)"
  shows "f64_round x =
           2 powr (of_int e - 52) * of_int (round_half_even (x / 2 powr (of_int e - 52)))"
proof -
  have "\<lfloor>log 2 \<bar>x\<bar>\<rfloor> = e"
    using assms by (subst floor_log_eq_powr_iff) auto
  then show ?thesis using assms(1) by (simp add: f64_round_def Let_def)
qed

lemma f64_round_exact:
  assumes "x \<noteq> 0" "2 powr of_int e \<le> \<bar>x\<bar>" "\<bar>x\<bar> < 2 powr (of_int e + 1)"
    and "x / 2 powr (of_int e - 52) = of_int m"
  shows "f64_round x = x"
proof -
  have "f64_round x = 2 powr (of_int e - 52) * of_int m"
    unfolding f64_round_at [OF assms(1,2,3)] assms(4) by simp
  also have "\<dots> = 2 powr (of_int e - 52) * (x / 2 powr (of_int e - 52))"
    by (simp add: assms(4))
  also have "\<dots> = x" by simp
  finally show ?thesis .
qed

lemma powr_2_values:
  "(2::real) powr (- 52) = 1 / 2 ^ 52" "(2::real) powr (- 51) = 1 / 2 ^ 51"
  "(2::real) powr (- 50) = 1 / 2 ^ 50" "(2::real) powr 4 = 16"
  "(2::real) powr 56 = 2 ^ 56" "(2::real) powr 57 = 2 ^ 57"
  by (simp_all add: powr_minus_divide powr_numeral)

lemma f64_round_1: "f64_round 1 = 1"
  by (rule f64_round_exact [where e = 0 and m = "2 ^ 52"]) (simp_all add: powr_2_values)

lemma f64_round_2: "f64_round 2 = 2"
  by (rule f64_round_exact [where e = 1 and m = "2 ^ 52"]) (simp_all add: powr_2_values)

lemma f64_round_3: "f64_round 3 = 3"
  by (rule f64_round_exact [where e = 1 and m = "3 * 2 ^ 51"]) (simp_all add: powr_2_values)

lemma f64_round_4: "f64_round 4 = 4"
  by (rule f64_round_exact [where e = 2 and m = "2 ^ 52"]) (simp_all add: powr_2_values)

lemma f64_round_5: "f64_round 5 = 5"
  by (rule f64_round_exact [where e = 2 and m = "5 * 2 ^ 50"]) (simp_all add: powr_2_values)

lemma f64_round_6: "f64_round 6 = 6"
  by (rule f64_round_exact [where e = 2 and m = "6 * 2 ^ 50"]) (simp_all add: powr_2_values)

text \<open>
  The spacing of float64 at \<open>10\<^sup>1\<^sup>7\<close> is 16, so \<open>1 - 10\<^sup>1\<^sup>7\<close> rounds to \<open>- 10\<^sup>1\<^sup>7\<close>.
\<close>

lemma f64_round_big: "f64_round (1 - 100000000000000000) = - 100000000000000000"
proof -
  have "f64_round (- 99999999999999999) =
      2 powr (of_int 56 - 52) *
        of_int (round_half_even (- 99999999999999999 / 2 powr (of_int 56 - 52)))"
    by (rule f64_round_at) (simp_all add: powr_2_values)
  moreover have "round_half_even (- 99999999999999999 / 16) = - 6250000000000000"
    by (simp add: round_half_even_def Let_def)
  ultimately show ?thesis by (simp add: powr_2_values)
qed

section \<open>Properties of \<^verbatim>\<open>heat_eq_step\<close>\<close>

lemma heat_eq_step_window:
  "heat_eq_step ar omega =
     iadd_slice3 (fadd ar) (Some 1, Some (- 1)) (Some 1, Some (- 1)) (Some 1, Some (- 1)) omega
       (ew3 (fsub ar) (div3 (fdiv ar)
          (ew3 (fadd ar) (ew3 (fadd ar) (ew3 (fadd ar) (ew3 (fadd ar) (ew3 (fadd ar)
          (win3 1 1 0 omega) (win3 1 1 2 omega)) (win3 1 0 1 omega)) (win3 1 2 1 omega))
          (win3 2 1 1 omega)) (win3 0 1 1 omega)) 6) (win3 1 1 1 omega))"
  unfolding heat_eq_step_def Let_def slice3_def fst_conv snd_conv py_slice_window win3_def ..

lemma heat_rhs_shape:
  assumes "shape3 nz ny nx omega"
  shows "shape3 (nz - 2) (ny - 2) (nx - 2)
       (ew3 (fsub ar) (div3 (fdiv ar)
          (ew3 (fadd ar) (ew3 (fadd ar) (ew3 (fadd ar) (ew3 (fadd ar) (ew3 (fadd ar)
          (win3 1 1 0 omega) (win3 1 1 2 omega)) (win3 1 0 1 omega)) (win3 1 2 1 omega))
          (win3 2 1 1 omega)) (win3 0 1 1 omega)) 6) (win3 1 1 1 omega))"
  using assms by (intro ew3_shape div3_shape win3_shape) simp_all

lemma heat_rhs_nth:
  assumes "shape3 nz ny nx omega" "i < nz - 2" "j < ny - 2" "k < nx - 2"
  shows "ew3 (fsub ar) (div3 (fdiv ar)
          (ew3 (fadd ar) (ew3 (fadd ar) (ew3 (fadd ar) (ew3 (fadd ar) (ew3 (fadd ar)
          (win3 1 1 0 omega) (win3 1 1 2 omega)) (win3 1 0 1 omega)) (win3 1 2 1 omega))
          (win3 2 1 1 omega)) (win3 0 1 1 omega)) 6) (win3 1 1 1 omega) ! i ! j ! k =
         fsub ar (fdiv ar (face_sum ar omega (i + 1) (j + 1) (k + 1)) 6)
           (omega ! (i + 1) ! (j + 1) ! (k + 1))"
proof -
  note sh = win3_shape [OF assms(1)]
  note nt = win3_nth [OF assms(1) _ _ _ assms(2,3,4)]
  have w: "shape3 (nz - 2) (ny - 2) (nx - 2) (win3 oz oy ox omega)"
    if "oz \<le> 2" "oy \<le> 2" "ox \<le> 2" for oz oy ox
    using that by (rule sh)
  show ?thesis
    using assms(2,3,4)
    by (simp add: ew3_nth [where nz = "nz - 2" and ny = "ny - 2" and nx = "nx - 2"]
        div3_nth [where nz = "nz - 2" and ny = "ny - 2" and nx = "nx - 2"]
        ew3_shape div3_shape w nt face_sum_def)
qed

lemma heat_eq_step_nth:
  assumes "shape3 nz ny nx omega" "3 \<le> nz" "3 \<le> ny" "3 \<le> nx"
    and "z < nz" "y < ny" "x < nx"
  shows "heat_eq_step ar omega ! z ! y ! x =
           (if interior nz ny nx z y x then relaxed ar omega z y x else omega ! z ! y ! x)"
proof -
  from assms have ge: "2 \<le> nz" "2 \<le> ny" "2 \<le> nx" by arith+
  define R where "R = ew3 (fsub ar) (div3 (fdiv ar)
          (ew3 (fadd ar) (ew3 (fadd ar) (ew3 (fadd ar) (ew3 (fadd ar) (ew3 (fadd ar)
          (win3 1 1 0 omega) (win3 1 1 2 omega)) (win3 1 0 1 omega)) (win3 1 2 1 omega))
          (win3 2 1 1 omega)) (win3 0 1 1 omega)) 6) (win3 1 1 1 omega)"
  have step: "heat_eq_step ar omega ! z ! y ! x =
           (if interior nz ny nx z y x
            then fadd ar (omega ! z ! y ! x) (R ! (z - 1) ! (y - 1) ! (x - 1))
            else omega ! z ! y ! x)"
    unfolding heat_eq_step_window interior_def R_def
    by (rule iadd_inner_nth [OF assms(1) heat_rhs_shape [OF assms(1)] ge assms(5,6,7)])
  show ?thesis
  proof (cases "interior nz ny nx z y x")
    case True
    then have idx: "z - 1 < nz - 2" "y - 1 < ny - 2" "x - 1 < nx - 2"
      and bk: "z - 1 + 1 = z" "y - 1 + 1 = y" "x - 1 + 1 = x"
      by (auto simp: interior_def)
    have "R ! (z - 1) ! (y - 1) ! (x - 1) =
        fsub ar (fdiv ar (face_sum ar omega z y x) 6) (omega ! z ! y ! x)"
      using heat_rhs_nth [OF assms(1) idx, of ar] unfolding bk R_def .
    with True step show ?thesis by (simp add: relaxed_def)
  next
    case False
    with step show ?thesis by simp
  qed
qed

lemma heat_eq_step_shape:
  assumes "shape3 nz ny nx omega" "2 \<le> nz" "2 \<le> ny" "2 \<le> nx"
  shows "shape3 nz ny nx (heat_eq_step ar omega)"
  unfolding heat_eq_step_window
  by (rule iadd_inner_shape [OF assms(1) heat_rhs_shape [OF assms(1)] assms(2,3,4)])

lemma relaxed_exact: "relaxed exact_ops a z y x = face_mean a z y x"
  by (simp add: relaxed_def face_sum_def face_mean_def exact_ops_def)

text \<open>
  C3 (amended). On a 3D float array with at least 3 voxels on every axis, one call of
  \<open>heat_eq_step\<close> keeps the shape of the array, leaves every voxel of the outermost layer
  unchanged, and replaces the value \<open>v\<close> of every interior voxel by the float64 value of
  \<open>v + (s / 6 - v)\<close>, where \<open>s\<close> is the float64 sum of the values its six face neighbours had
  before the call (a synchronous Jacobi update). This holds whatever the float64 operations
  do; the new value is the arithmetic mean of the six neighbours when the operations are
  exact, and is not that mean in general.
\<close>

theorem heat_eq_step_jacobi:
  assumes "shape3 nz ny nx omega" "3 \<le> nz" "3 \<le> ny" "3 \<le> nx"
  shows "shape3 nz ny nx (heat_eq_step ar omega) \<and>
         (\<forall>z<nz. \<forall>y<ny. \<forall>x<nx.
            heat_eq_step ar omega ! z ! y ! x =
              (if interior nz ny nx z y x then relaxed ar omega z y x else omega ! z ! y ! x)) \<and>
         (\<forall>z<nz. \<forall>y<ny. \<forall>x<nx.
            heat_eq_step exact_ops omega ! z ! y ! x =
              (if interior nz ny nx z y x then face_mean omega z y x else omega ! z ! y ! x))"
proof -
  from assms have "2 \<le> nz" "2 \<le> ny" "2 \<le> nx" by arith+
  then have "shape3 nz ny nx (heat_eq_step ar omega)"
    by (rule heat_eq_step_shape [OF assms(1)])
  then show ?thesis
    using heat_eq_step_nth [OF assms, of _ _ _ ar] heat_eq_step_nth [OF assms, of _ _ _ exact_ops]
    by (simp add: relaxed_exact)
qed

lemma relaxed_f64_big:
  "relaxed f64
     [[[1, 1, 1], [1, 1, 1], [1, 1, 1]],
      [[1, 1, 1], [1, 100000000000000000, 1], [1, 1, 1]],
      [[1, 1, 1], [1, 1, 1], [1, 1, 1]]] 1 1 1 = 0"
proof -
  have "f64_round (100000000000000000 + - 100000000000000000) = 0" by simp
  then show ?thesis
    using f64_round_big
    by (simp add: relaxed_def face_sum_def f64_def f64_round_1 f64_round_2 f64_round_3
        f64_round_4 f64_round_5 f64_round_6)
qed

theorem heat_eq_step_jacobi_witness:
  "shape3 3 3 3
     [[[1, 1, 1], [1, 1, 1], [1, 1, 1]],
      [[1, 1, 1], [1, 100000000000000000, 1], [1, 1, 1]],
      [[1, 1, 1], [1, 1, 1], [1, 1, 1 :: real]]] \<and>
   heat_eq_step f64
     [[[1, 1, 1], [1, 1, 1], [1, 1, 1]],
      [[1, 1, 1], [1, 100000000000000000, 1], [1, 1, 1]],
      [[1, 1, 1], [1, 1, 1], [1, 1, 1]]] ! 1 ! 1 ! 1 = 0 \<and>
   heat_eq_step f64
     [[[1, 1, 1], [1, 1, 1], [1, 1, 1]],
      [[1, 1, 1], [1, 100000000000000000, 1], [1, 1, 1]],
      [[1, 1, 1], [1, 1, 1], [1, 1, 1]]] ! 1 ! 1 ! 2 = 1 \<and>
   heat_eq_step exact_ops
     [[[1, 1, 1], [1, 1, 1], [1, 1, 1]],
      [[1, 1, 1], [1, 100000000000000000, 1], [1, 1, 1]],
      [[1, 1, 1], [1, 1, 1], [1, 1, 1]]] ! 1 ! 1 ! 1 = 1"
proof -
  let ?w = "[[[1, 1, 1], [1, 1, 1], [1, 1, 1]],
      [[1, 1, 1], [1, 100000000000000000, 1], [1, 1, 1]],
      [[1, 1, 1], [1, 1, 1], [1, 1, 1 :: real]]]"
  have sh: "shape3 3 3 3 ?w" by (simp add: shape3_def)
  have all: "\<forall>z<3. \<forall>y<3. \<forall>x<3.
            heat_eq_step f64 ?w ! z ! y ! x =
              (if interior 3 3 3 z y x then relaxed f64 ?w z y x else ?w ! z ! y ! x)"
    and ex: "\<forall>z<3. \<forall>y<3. \<forall>x<3.
            heat_eq_step exact_ops ?w ! z ! y ! x =
              (if interior 3 3 3 z y x then face_mean ?w z y x else ?w ! z ! y ! x)"
    using heat_eq_step_jacobi [OF sh, of f64] by simp_all
  have a: "heat_eq_step f64 ?w ! 1 ! 1 ! 1 = relaxed f64 ?w 1 1 1"
    using all by (simp add: interior_def)
  have c1: "heat_eq_step f64 ?w ! 1 ! 1 ! 1 = 0"
    unfolding a by (rule relaxed_f64_big)
  have "heat_eq_step f64 ?w ! 1 ! 1 ! 2 = ?w ! 1 ! 1 ! 2"
    using all by (simp add: interior_def)
  then have c2: "heat_eq_step f64 ?w ! 1 ! 1 ! 2 = 1" by simp
  have "heat_eq_step exact_ops ?w ! 1 ! 1 ! 1 = face_mean ?w 1 1 1"
    using ex by (simp add: interior_def)
  then have c3: "heat_eq_step exact_ops ?w ! 1 ! 1 ! 1 = 1" by (simp add: face_mean_def)
  from sh c1 c2 c3 show ?thesis by (intro conjI)
qed

text \<open>
  The claim C3 as stated fails in float64. In the array of ones with the value \<open>10\<^sup>1\<^sup>7\<close> at
  the centre, the mean of the six face neighbours of the centre is 1, and the step writes 0
  there: \<open>1 - 10\<^sup>1\<^sup>7\<close> rounds to \<open>- 10\<^sup>1\<^sup>7\<close>, and \<open>10\<^sup>1\<^sup>7 + (- 10\<^sup>1\<^sup>7)\<close> is 0.
\<close>

theorem heat_eq_step_not_mean:
  "heat_eq_step f64
     [[[1, 1, 1], [1, 1, 1], [1, 1, 1]],
      [[1, 1, 1], [1, 100000000000000000, 1], [1, 1, 1]],
      [[1, 1, 1], [1, 1, 1], [1, 1, 1]]] ! 1 ! 1 ! 1 = 0 \<and>
   face_mean
     [[[1, 1, 1], [1, 1, 1], [1, 1, 1]],
      [[1, 1, 1], [1, 100000000000000000, 1], [1, 1, 1]],
      [[1, 1, 1], [1, 1, 1], [1, 1, 1]]] 1 1 1 = 1"
proof -
  let ?w = "[[[1, 1, 1], [1, 1, 1], [1, 1, 1]],
      [[1, 1, 1], [1, 100000000000000000, 1], [1, 1, 1]],
      [[1, 1, 1], [1, 1, 1], [1, 1, 1 :: real]]]"
  have sh: "shape3 3 3 3 ?w" by (simp add: shape3_def)
  have int: "interior 3 3 3 1 1 1" by (simp add: interior_def)
  have "heat_eq_step f64 ?w ! 1 ! 1 ! 1 =
      (if interior 3 3 3 1 1 1 then relaxed f64 ?w 1 1 1 else ?w ! 1 ! 1 ! 1)"
    by (rule heat_eq_step_nth [OF sh]) simp_all
  then have "heat_eq_step f64 ?w ! 1 ! 1 ! 1 = 0"
    unfolding if_P [OF int] relaxed_f64_big .
  moreover have "face_mean ?w 1 1 1 = 1" by (simp add: face_mean_def)
  ultimately show ?thesis ..
qed

section \<open>Properties of \<^verbatim>\<open>get_croppped_version\<close>\<close>

text \<open>
  C8 (the code departs from the claim). The slices \<^verbatim>\<open>[zmin:zmax, ymin:ymax, xmin:xmax]\<close>
  exclude their end index, so the planes \<open>zmax\<close>, \<open>ymax\<close> and \<open>xmax\<close> of the bounding box are
  cut off. A membrane volume whose only non-zero voxel is \<open>(0, 0, 0)\<close> is cropped to an empty
  array; of a membrane volume of 2 x 2 x 2 non-zero voxels only the voxel \<open>(0, 0, 0)\<close> is kept,
  and the nucleus label at \<open>(1, 1, 1)\<close> of the second volume is lost with the others.
\<close>

theorem get_croppped_version_drops_max_planes:
  "get_croppped_version [[[1]]] [[[2]]] = Inr ([], [], (0, 0, 0, 0, 0, 0)) \<and>
   get_croppped_version [[[1, 1], [1, 1]], [[1, 1], [1, 1]]] [[[0, 0], [0, 0]], [[0, 0], [0, 2]]]
     = Inr ([[[1]]], [[[0]]], (0, 1, 0, 1, 0, 1))"
  by code_simp

section \<open>Properties of \<^verbatim>\<open>prob_image\<close>\<close>

lemma py_index_Some_iff:
  "py_index xs i = Some v \<longleftrightarrow>
     - int (length xs) \<le> i \<and> i < int (length xs) \<and>
     v = xs ! nat (if i < 0 then i + int (length xs) else i)"
  by (auto simp: py_index_def Let_def)

lemma py_index_None_iff:
  "py_index xs i = None \<longleftrightarrow> i < - int (length xs) \<or> int (length xs) \<le> i"
  by (auto simp: py_index_def Let_def)

text \<open>
  C6 (the code departs from the claim). A negative truncated coordinate is no indexing failure
  in Python: it counts from the end of the axis. On a volume of one row \<open>[5, 7]\<close> (minimum 5),
  the point with x = -1 lies outside the index range \<open>0..1\<close> and records 7, the value of the
  last voxel, where the claim promises the minimum 5. The point with x = 2 records the
  minimum, and the point with x = 1.5 records the voxel at index 1.
\<close>

theorem prob_image_negative_index_wraps:
  "prob_image \<lparr>points = [(- 1, 0, 0), (2, 0, 0), (1.5, 0.2, 0)], lines = [], point_data = []\<rparr>
     [([[[5, 7]]], ''sig'')]
   = Inr \<lparr>points = [(- 1, 0, 0), (2, 0, 0), (1.5, 0.2, 0)], lines = [],
          point_data = [(''sig'', [7, 5, 7])]\<rparr>"
  by code_simp

section \<open>Properties of \<^verbatim>\<open>get_traces\<close>\<close>

lemma trace_scalars_isoval:
  "map fst (trace_scalars k dr ro rs) = map real [k..<k + length rs]"
proof (induction rs arbitrary: k dr ro)
  case Nil
  then show ?case by simp
next
  case (Cons r rs)
  have "[k..<k + length (r # rs)] = k # [Suc k..<Suc k + length rs]"
    by (simp add: upt_rec)
  then show ?case by (simp add: Let_def Cons.IH)
qed

lemma trace_scalars_first_length:
  "snd (hd (trace_scalars k 0 (0, 0, 0) (r # rs))) = dist3 (0, 0, 0) r"
  by (simp add: Let_def)

lemma sqrt_9: "sqrt 9 = 3"
  by (simp add: real_sqrt_unique)

lemma sqrt_16: "sqrt 16 = 4"
  by (simp add: real_sqrt_unique)

text \<open>
  C5 (the code departs from the claim). Every trace starts its running length from
  \<^verbatim>\<open>ro = [0,0,0]\<close>, so the first point of a trace carries its distance from the origin,
  not 0, and every later point carries that distance on top of the chord length. For two
  shells of one point each, \<open>(3, 0, 0)\<close> and \<open>(3, 4, 0)\<close>, the \<open>length\<close> array is \<open>[3, 7]\<close>
  where the cumulative chord length of the claim is \<open>[0, 4]\<close>; the \<open>isoval\<close> array is the
  0-based shell index, as claimed.
\<close>

theorem get_traces_length_starts_at_origin:
  "get_traces [\<lparr>points = [(3, 0, 0)], lines = [], point_data = []\<rparr>,
               \<lparr>points = [(3, 4, 0)], lines = [], point_data = []\<rparr>] None
   = Inr \<lparr>points = [(3, 0, 0), (3, 4, 0)], lines = [[0, 1]],
          point_data = [(''isoval'', [0, 1]), (''length'', [3, 7])]\<rparr>"
  by (simp add: get_traces_def GetPoint_def emit_trace_def dist3_def sqrt_9 sqrt_16
      prob_image_opt_def upt_rec)

section \<open>Properties of \<^verbatim>\<open>copy_content\<close>\<close>

lemma amax_Max: "amax v vs = Max (set (v # vs))"
  unfolding amax_def by (rule Max.set_eq_fold [symmetric])

lemma amin_Min: "amin v vs = Min (set (v # vs))"
  unfolding amin_def by (rule Min.set_eq_fold [symmetric])

lemma normalize_scalars_eq:
  "a \<noteq> [] \<Longrightarrow> normalize_scalars n a = Inr (normalized n a)"
  by (cases a) (simp_all add: normalize_scalars_def normalized_def amax_Max Let_def)

lemma normalized_length [simp]: "length (normalized n a) = length a"
  by (simp add: normalized_def)

lemma normalized_Nil_iff [simp]: "normalized n a = [] \<longleftrightarrow> a = []"
  by (simp add: normalized_def)

lemma Max_divide:
  assumes "a \<noteq> []" "0 < (c::real)"
  shows "Max (set (map (\<lambda>s. s / c) a)) = Max (set a) / c"
proof -
  have "mono (\<lambda>s. s / c)" using assms(2) by (simp add: mono_def divide_right_mono)
  from mono_Max_commute [OF this, of "set a"] assms(1) show ?thesis by simp
qed

lemma normalized_idem:
  assumes "a \<noteq> []"
  shows "normalized n (normalized n a) = normalized n a"
proof (cases "n \<and> 0 < Max (set a)")
  case True
  then have "Max (set (map (\<lambda>s. s / Max (set a)) a)) = 1"
    using Max_divide [OF assms, of "Max (set a)"] by simp
  with True show ?thesis by (simp add: normalized_def)
next
  case False
  then show ?thesis by (auto simp: normalized_def)
qed

lemma map_of_AddArray: "map_of (AddArray k v al) = (map_of al)(k \<mapsto> v)"
  by (induction al) (auto simp: fun_eq_iff)

lemma GetArray_AddArray:
  "GetArray (m\<lparr>point_data := AddArray k v (point_data m)\<rparr>) k' =
     (if k' = k then Some v else GetArray m k')"
  by (simp add: GetArray_def map_of_AddArray)

lemma GetArray_available: "GetArray m name = Some a \<Longrightarrow> name \<in> set (map fst (point_data m))"
  unfolding GetArray_def by (metis map_of_eq_None_iff option.distinct(1) set_map)

lemma accumulate_source_result:
  assumes "length data = length arrays" "\<forall>d\<in>set data. length d = npts"
    and "\<forall>name\<in>set arrays. \<exists>a. GetArray mesh name = Some a \<and> length a = npts \<and> a \<noteq> [] \<and>
            normalized n a = tgt name"
  shows "accumulate_source n mesh arrays data =
           Inr (map2 (\<lambda>d name. map2 (\<lambda>a b. a + b) d (tgt name)) data arrays)"
  using assms
proof (induction arrays arbitrary: mesh data)
  case Nil
  then show ?case by simp
next
  case (Cons array arrays)
  then obtain d data' where data: "data = d # data'" by (cases data) auto
  from Cons.prems(3) obtain a where a: "GetArray mesh array = Some a" "length a = npts" "a \<noteq> []"
    "normalized n a = tgt array" by auto
  let ?mesh' = "mesh\<lparr>point_data := AddArray array (normalized n a) (point_data mesh)\<rparr>"
  have inv: "\<forall>name\<in>set arrays. \<exists>b. GetArray ?mesh' name = Some b \<and> length b = npts \<and> b \<noteq> [] \<and>
            normalized n b = tgt name"
  proof
    fix name assume "name \<in> set arrays"
    show "\<exists>b. GetArray ?mesh' name = Some b \<and> length b = npts \<and> b \<noteq> [] \<and> normalized n b = tgt name"
    proof (cases "name = array")
      case True
      have "normalized n (normalized n a) = tgt array"
        using normalized_idem [OF a(3), of n] a(4) by simp
      moreover have "length (normalized n a) = npts" "normalized n a \<noteq> []"
        using a(2,3) by simp_all
      ultimately show ?thesis using True by (simp add: GetArray_AddArray)
    next
      case False
      with Cons.prems(3) \<open>name \<in> set arrays\<close> show ?thesis by (simp add: GetArray_AddArray)
    qed
  qed
  have rest: "accumulate_source n ?mesh' arrays data' =
           Inr (map2 (\<lambda>d name. map2 (\<lambda>a b. a + b) d (tgt name)) data' arrays)"
    using Cons.prems(1,2) data by (intro Cons.IH inv) auto
  have avail: "array \<in> set (map fst (point_data mesh))" using a(1) by (rule GetArray_available)
  have len: "length a = length d" using a(2) Cons.prems(2) data by simp
  show ?case
    using avail a len rest by (simp add: data normalize_scalars_eq del: set_map)
qed

lemma source_sum_Cons:
  assumes "length (normalized n (array_of m name)) = npts"
  shows "source_sum n (m # ms) name npts =
           map2 (\<lambda>a b. a + b) (normalized n (array_of m name)) (source_sum n ms name npts)"
  using assms by (auto simp: source_sum_def list_eq_iff_nth_eq)

lemma source_sum_length [simp]: "length (source_sum n ms name npts) = npts"
  by (simp add: source_sum_def)

lemma map2_add_assoc:
  "map2 (\<lambda>a b. a + b) (map2 (\<lambda>a b. a + b) d x) y = map2 (\<lambda>a b. a + b) d (map2 (\<lambda>a b. a + (b::real)) x y)"
  by (auto simp: list_eq_iff_nth_eq)

lemma existing_sources_Cons:
  "existing_sources fs (s # ss) =
     (case fs s of None \<Rightarrow> existing_sources fs ss | Some m \<Rightarrow> m # existing_sources fs ss)"
  by (simp add: existing_sources_def split: option.split)

lemma valid_sources_Cons:
  "valid_sources fs (s # ss) arrays npts \<longleftrightarrow>
     (case fs s of None \<Rightarrow> True
      | Some m \<Rightarrow> \<forall>name\<in>set arrays. \<exists>a. GetArray m name = Some a \<and> length a = npts \<and> a \<noteq> [])
     \<and> valid_sources fs ss arrays npts"
  by (auto simp: valid_sources_def existing_sources_Cons list_all_iff split: option.splits)

lemma add_source_sum_Nil:
  "length d = npts \<Longrightarrow> map2 (\<lambda>a b. a + b) d (source_sum n [] name npts) = d"
  by (simp add: source_sum_def list_eq_iff_nth_eq)

lemma copy_sources_result:
  assumes "valid_sources fs sources arrays npts"
    and "length data = length arrays" "\<forall>d\<in>set data. length d = npts"
  shows "copy_sources n fs sources arrays data =
           Inr (map2 (\<lambda>d name. map2 (\<lambda>a b. a + b) d
                  (source_sum n (existing_sources fs sources) name npts)) data arrays)"
  using assms
proof (induction sources arbitrary: data)
  case Nil
  have "map2 (\<lambda>d name. map2 (\<lambda>a b. a + b) d (source_sum n [] name npts)) data arrays = data"
    using Nil.prems(2,3) by (simp add: list_eq_iff_nth_eq add_source_sum_Nil)
  then show ?case by (simp add: existing_sources_def)
next
  case (Cons s ss)
  from Cons.prems(1) have vss: "valid_sources fs ss arrays npts"
    by (simp add: valid_sources_Cons)
  show ?case
  proof (cases "fs s")
    case None
    with Cons.IH [OF vss Cons.prems(2,3)] show ?thesis
      by (simp add: existing_sources_Cons)
  next
    case (Some m)
    with Cons.prems(1) have vm:
      "\<forall>name\<in>set arrays. \<exists>a. GetArray m name = Some a \<and> length a = npts \<and> a \<noteq> []"
      by (simp add: valid_sources_Cons)
    then have tgt: "\<forall>name\<in>set arrays. \<exists>a. GetArray m name = Some a \<and> length a = npts \<and> a \<noteq> [] \<and>
        normalized n a = normalized n (array_of m name)"
      by (auto simp: array_of_def)
    let ?data' = "map2 (\<lambda>d name. map2 (\<lambda>a b. a + b) d (normalized n (array_of m name))) data arrays"
    have acc: "accumulate_source n m arrays data = Inr ?data'"
      by (rule accumulate_source_result [OF Cons.prems(2,3) tgt])
    have lenm: "length (normalized n (array_of m name)) = npts" if "name \<in> set arrays" for name
      using vm that by (auto simp: array_of_def)
    have len': "length ?data' = length arrays" using Cons.prems(2) by simp
    have lend: "length (data ! j) = npts" if "j < length arrays" for j
      using Cons.prems(2,3) that by simp
    have lenj: "length (normalized n (array_of m (arrays ! j))) = npts" if "j < length arrays" for j
      using lenm [of "arrays ! j"] that by simp
    have all': "\<forall>d\<in>set ?data'. length d = npts"
    proof
      fix d assume "d \<in> set ?data'"
      then obtain j where j: "j < length arrays"
        and d: "d = map2 (\<lambda>a b. a + b) (data ! j) (normalized n (array_of m (arrays ! j)))"
        using Cons.prems(2) by (auto simp: in_set_conv_nth)
      show "length d = npts" unfolding d using lend [OF j] lenj [OF j] by simp
    qed
    have "map2 (\<lambda>d name. map2 (\<lambda>a b. a + b) d (source_sum n (existing_sources fs ss) name npts)) ?data' arrays
        = map2 (\<lambda>d name. map2 (\<lambda>a b. a + b) d (source_sum n (m # existing_sources fs ss) name npts)) data arrays"
      using Cons.prems(2) lenj
      by (simp add: list_eq_iff_nth_eq source_sum_Cons map2_add_assoc)
    with Cons.IH [OF vss len' all'] acc Some show ?thesis
      by (simp add: existing_sources_Cons)
  qed
qed

lemma fold_attach_points: "points (fold (attach_avg k) xs dest) = points dest"
  by (induction xs arbitrary: dest) (simp_all add: attach_avg_def)

lemma fold_attach_other:
  "key \<notin> (\<lambda>an. snd an @ ''_avg'') ` set xs \<Longrightarrow>
   GetArray (fold (attach_avg k) xs dest) key = GetArray dest key"
  by (induction xs arbitrary: dest) (auto simp: attach_avg_def GetArray_AddArray)

lemma fold_attach_get:
  "name \<in> set arrays \<Longrightarrow>
   GetArray (fold (attach_avg k) (map (\<lambda>nm. (F nm, nm)) arrays) dest) (name @ ''_avg'') =
     Some (map (\<lambda>v. v / real k) (F name))"
proof (induction arrays arbitrary: dest)
  case Nil
  then show ?case by simp
next
  case (Cons a rest)
  show ?case
  proof (cases "name \<in> set rest")
    case True
    then show ?thesis by (simp add: Cons.IH)
  next
    case False
    with Cons.prems have na: "name = a" by simp
    from False have notin:
      "name @ ''_avg'' \<notin> (\<lambda>an. snd an @ ''_avg'') ` set (map (\<lambda>nm. (F nm, nm)) rest)"
      by auto
    have "GetArray (fold (attach_avg k) (map (\<lambda>nm. (F nm, nm)) rest) (attach_avg k (F a, a) dest))
            (name @ ''_avg'') = GetArray (attach_avg k (F a, a) dest) (name @ ''_avg'')"
      using notin by (rule fold_attach_other)
    also have "\<dots> = Some (map (\<lambda>v. v / real k) (F name))"
      by (simp add: na attach_avg_def GetArray_AddArray)
    finally show ?thesis by simp
  qed
qed

lemma copy_content_result:
  assumes "valid_sources fs sources arrays (length (points destination))"
  shows "\<exists>dest. copy_content fs sources destination arrays n = Inr dest \<and>
           points dest = points destination \<and>
           (\<forall>name\<in>set arrays. GetArray dest (name @ ''_avg'') =
              Some (map (\<lambda>v. v / real (length sources))
                (source_sum n (existing_sources fs sources) name (length (points destination)))))"
proof -
  let ?npts = "length (points destination)"
  let ?data = "map (\<lambda>array. replicate ?npts (0::real)) arrays"
  let ?F = "\<lambda>name. source_sum n (existing_sources fs sources) name ?npts"
  have "copy_sources n fs sources arrays ?data =
          Inr (map2 (\<lambda>d name. map2 (\<lambda>a b. a + b) d (?F name)) ?data arrays)"
    by (rule copy_sources_result [OF assms]) auto
  moreover have "map2 (\<lambda>d name. map2 (\<lambda>a b. a + b) d (?F name)) ?data arrays = map ?F arrays"
    by (simp add: list_eq_iff_nth_eq)
  moreover have "zip (map ?F arrays) arrays = map (\<lambda>nm. (?F nm, nm)) arrays"
    by (simp add: list_eq_iff_nth_eq)
  ultimately have "copy_content fs sources destination arrays n =
      Inr (fold (attach_avg (length sources)) (map (\<lambda>nm. (?F nm, nm)) arrays) destination)"
    by (simp add: copy_content_def)
  then show ?thesis by (simp add: fold_attach_points fold_attach_get)
qed

lemma existing_sources_length:
  "length (existing_sources fs sources) = length sources - length (filter (\<lambda>s. fs s = None) sources)"
proof (induction sources)
  case Nil
  then show ?case by (simp add: existing_sources_def)
next
  case (Cons s ss)
  have "length (filter (\<lambda>s. fs s = None) ss) \<le> length ss" by simp
  with Cons show ?case by (auto simp: existing_sources_Cons Suc_diff_le split: option.splits)
qed

lemma source_sum_single:
  "source_sum n [m] name (length (array_of m name)) = normalized n (array_of m name)"
proof -
  have "map ((!) (normalized n (array_of m name))) [0..<length (normalized n (array_of m name))]
          = normalized n (array_of m name)"
    by (rule map_nth)
  then show ?thesis by (simp add: source_sum_def)
qed

text \<open>
  C9. A listed source that does not exist is skipped without an error, and the accumulated
  arrays are still divided by the number of listed sources: when every existing source holds
  the requested arrays (one value per destination point), \<open>copy_content\<close> succeeds, the
  number of sources that contribute is the number \<open>n\<close> of listed sources minus the number
  \<open>k\<close> of missing ones, and the array attached under \<open>name_avg\<close> is the pointwise sum over
  these \<open>n - k\<close> existing sources divided by \<open>n\<close>.
\<close>

theorem copy_content_divides_by_listed_sources:
  assumes "sources \<noteq> []"
    and "valid_sources fs sources arrays (length (points destination))"
  shows "\<exists>dest. copy_content fs sources destination arrays normalise = Inr dest \<and>
           length (existing_sources fs sources) =
             length sources - length (filter (\<lambda>s. fs s = None) sources) \<and>
           (\<forall>name\<in>set arrays. GetArray dest (name @ ''_avg'') =
              Some (map (\<lambda>v. v / real (length sources))
                (source_sum normalise (existing_sources fs sources) name
                   (length (points destination)))))"
  using copy_content_result [OF assms(2), of normalise] existing_sources_length [of fs sources]
  by auto

theorem copy_content_divides_by_listed_sources_witness:
  "[''a.vtk'', ''b.vtk''] \<noteq> [] \<and>
   valid_sources
     (\<lambda>s. if s = ''a.vtk''
          then Some \<lparr>points = [(0, 0, 0), (1, 0, 0)], lines = [], point_data = [(''sig'', [2, 4])]\<rparr>
          else None)
     [''a.vtk'', ''b.vtk''] [''sig'']
     (length (points \<lparr>points = [(0, 0, 0), (1, 0, 0)], lines = [], point_data = []\<rparr>)) \<and>
   (\<exists>dest.
      copy_content
        (\<lambda>s. if s = ''a.vtk''
             then Some \<lparr>points = [(0, 0, 0), (1, 0, 0)], lines = [], point_data = [(''sig'', [2, 4])]\<rparr>
             else None)
        [''a.vtk'', ''b.vtk'']
        \<lparr>points = [(0, 0, 0), (1, 0, 0)], lines = [], point_data = []\<rparr> [''sig''] False = Inr dest \<and>
      GetArray dest ''sig_avg'' = Some [1, 2])"
proof -
  let ?fs = "\<lambda>s. if s = ''a.vtk''
          then Some \<lparr>points = [(0, 0, 0), (1, 0, 0)], lines = [], point_data = [(''sig'', [2, 4])]\<rparr>
          else None"
  let ?d = "\<lparr>points = [(0, 0, 0), (1, 0, 0)], lines = [], point_data = []\<rparr>"
  have ne: "[''a.vtk'', ''b.vtk''] \<noteq> []" by simp
  have v: "valid_sources ?fs [''a.vtk'', ''b.vtk''] [''sig''] (length (points ?d))"
    by (simp add: valid_sources_def existing_sources_def GetArray_def)
  have val: "map (\<lambda>v. v / real (length [''a.vtk'', ''b.vtk'']))
               (source_sum False (existing_sources ?fs [''a.vtk'', ''b.vtk'']) ''sig''
                  (length (points ?d))) = [1, 2]"
    by code_simp
  from copy_content_divides_by_listed_sources [OF ne v, of False]
  obtain dest where "copy_content ?fs [''a.vtk'', ''b.vtk''] ?d [''sig''] False = Inr dest"
    and "GetArray dest (''sig'' @ ''_avg'') =
           Some (map (\<lambda>v. v / real (length [''a.vtk'', ''b.vtk'']))
               (source_sum False (existing_sources ?fs [''a.vtk'', ''b.vtk'']) ''sig''
                  (length (points ?d))))"
    by auto
  then have "copy_content ?fs [''a.vtk'', ''b.vtk''] ?d [''sig''] False = Inr dest \<and>
      GetArray dest ''sig_avg'' = Some [1, 2]"
    unfolding val by simp
  with ne v show ?thesis by blast
qed

text \<open>
  C7 (amended). With exactly one source, which exists and holds the requested array \<open>A\<close>,
  non-empty and with one value per point of the destination, the array attached to the
  destination is \<open>A\<close> when \<open>normalize\<close> is false. When \<open>normalize\<close> is true it is \<open>A\<close>
  divided by its maximum if that maximum is positive, and \<open>A\<close> otherwise: the average of one
  normalized source is the normalized source, not the source.
\<close>

theorem copy_content_single_source:
  assumes "fs source = Some mesh" "GetArray mesh name = Some A"
    and "length A = length (points destination)" "A \<noteq> []"
  shows "\<exists>dest. copy_content fs [source] destination [name] normalise = Inr dest \<and>
           GetArray dest (name @ ''_avg'') =
             Some (if normalise \<and> 0 < Max (set A) then map (\<lambda>v. v / Max (set A)) A else A)"
proof -
  have v: "valid_sources fs [source] [name] (length (points destination))"
    using assms by (simp add: valid_sources_def existing_sources_def)
  have ao: "array_of mesh name = A"
    by (simp add: array_of_def assms(2))
  have ss: "source_sum normalise [mesh] name (length (points destination)) = normalized normalise A"
    using source_sum_single [of normalise mesh name] unfolding ao assms(3) .
  have ex: "existing_sources fs [source] = [mesh]"
    by (simp add: existing_sources_def assms(1))
  from copy_content_result [OF v, of normalise]
  obtain dest where "copy_content fs [source] destination [name] normalise = Inr dest"
    and "GetArray dest (name @ ''_avg'') = Some (map (\<lambda>v. v / real (length [source]))
           (source_sum normalise (existing_sources fs [source]) name (length (points destination))))"
    by auto
  then show ?thesis
    unfolding ex ss by (simp add: normalized_def)
qed

theorem copy_content_single_source_witness:
  "(\<lambda>s. if s = ''a.vtk''
        then Some \<lparr>points = [(0, 0, 0), (1, 0, 0)], lines = [], point_data = [(''sig'', [2, 4])]\<rparr>
        else None) ''a.vtk''
     = Some \<lparr>points = [(0, 0, 0), (1, 0, 0)], lines = [], point_data = [(''sig'', [2, 4])]\<rparr> \<and>
   GetArray \<lparr>points = [(0, 0, 0), (1, 0, 0)], lines = [], point_data = [(''sig'', [2, 4])]\<rparr> ''sig''
     = Some [2, 4] \<and>
   (\<exists>dest.
      copy_content
        (\<lambda>s. if s = ''a.vtk''
             then Some \<lparr>points = [(0, 0, 0), (1, 0, 0)], lines = [], point_data = [(''sig'', [2, 4])]\<rparr>
             else None)
        [''a.vtk'']
        \<lparr>points = [(0, 0, 0), (1, 0, 0)], lines = [], point_data = []\<rparr> [''sig''] False = Inr dest \<and>
      GetArray dest ''sig_avg'' = Some [2, 4])"
proof -
  let ?m = "\<lparr>points = [(0, 0, 0), (1, 0, 0)], lines = [], point_data = [(''sig'', [2, 4])]\<rparr>"
  let ?fs = "\<lambda>s. if s = ''a.vtk'' then Some ?m else None"
  let ?d = "\<lparr>points = [(0, 0, 0), (1, 0, 0)], lines = [], point_data = []\<rparr>"
  have h1: "?fs ''a.vtk'' = Some ?m" by simp
  have h2: "GetArray ?m ''sig'' = Some [2, 4]" by (simp add: GetArray_def)
  have h3: "length [2, 4 :: real] = length (points ?d)" by simp
  have h4: "[2, 4 :: real] \<noteq> []" by simp
  have "\<exists>dest. copy_content ?fs [''a.vtk''] ?d [''sig''] False = Inr dest \<and>
      GetArray dest ''sig_avg'' = Some [2, 4]"
    using copy_content_single_source [of ?fs "''a.vtk''" ?m "''sig''" "[2, 4]" ?d False] h2
    by simp
  with h1 h2 show ?thesis by blast
qed

text \<open>
  The claim C7 as stated fails for \<open>normalize = True\<close>: the single source holds
  \<open>A = [2, 4]\<close> and the attached array is \<open>[1/2, 1]\<close>.
\<close>

theorem copy_content_normalize_not_identity:
  "copy_content
     (\<lambda>s. if s = ''a.vtk''
          then Some \<lparr>points = [(0, 0, 0), (1, 0, 0)], lines = [], point_data = [(''sig'', [2, 4])]\<rparr>
          else None)
     [''a.vtk'']
     \<lparr>points = [(0, 0, 0), (1, 0, 0)], lines = [], point_data = []\<rparr> [''sig''] True
   = Inr \<lparr>points = [(0, 0, 0), (1, 0, 0)], lines = [], point_data = [(''sig_avg'', [1 / 2, 1])]\<rparr>
   \<and> [1 / 2, 1] \<noteq> [2, 4 :: real]"
  by code_simp

section \<open>Properties of \<^verbatim>\<open>get_equipotential_surfaces_from_sh_coeffs\<close>\<close>

lemma py_int_of_nat: "py_int (real n) = int n"
  by (simp add: py_int_def)

lemma lmax_of_length: "py_int (sqrt (real (2 * (L + 1)\<^sup>2) / 2) - 1) = int L"
proof -
  have "real (2 * (L + 1)\<^sup>2) / 2 = (real (L + 1))\<^sup>2" by simp
  then have "sqrt (real (2 * (L + 1)\<^sup>2) / 2) = real (L + 1)" by (simp del: of_nat_add of_nat_Suc)
  then have "sqrt (real (2 * (L + 1)\<^sup>2) / 2) - 1 = real L" by simp
  then show ?thesis by (simp only: py_int_of_nat)
qed

lemma iso_values_pair:
  "iso_values_of [a, b] = [0, real a / (real a + real b), (real a + real b) / (real a + real b)]"
  by (simp add: iso_values_of_def Let_def)

lemma linspace01_length: "length (linspace01 n) = n"
  by (simp add: linspace01_def)

lemma linspace01_range: "s \<in> set (linspace01 n) \<Longrightarrow> 0 \<le> s \<and> s \<le> 1"
  by (auto simp: linspace01_def divide_le_eq_1 split: if_splits)

lemma prob_image_points:
  "list_all (\<lambda>im. concat (concat (fst im)) \<noteq> []) images \<Longrightarrow>
   \<exists>pd'. prob_image pd images = Inr pd' \<and> points pd' = points pd"
proof (induction images arbitrary: pd)
  case Nil
  then show ?case by simp
next
  case (Cons im images)
  obtain img name where im: "im = (img, name)" by (cases im)
  from Cons.prems im obtain v vs where "concat (concat img) = v # vs"
    by (cases "concat (concat img)") auto
  then have vm: "vol_min img = Inr (amin v vs)" by (simp add: vol_min_def)
  from Cons.prems have "list_all (\<lambda>im. concat (concat (fst im)) \<noteq> []) images" by simp
  from Cons.IH [OF this,
      of "pd\<lparr>point_data := AddArray name (map (probe_point img (amin v vs)) (points pd)) (point_data pd)\<rparr>"]
  show ?case by (simp add: im vm)
qed

lemma shells_loop_all:
  assumes "\<And>s. s \<in> set ss \<Longrightarrow> \<exists>m. f s = Inr m \<and> P m"
  shows "\<exists>ms. shells_loop f ss = Inr ms \<and> length ms = length ss \<and> (\<forall>m\<in>set ms. P m)"
  using assms
proof (induction ss)
  case Nil
  then show ?case by simp
next
  case (Cons s ss)
  from Cons.prems [of s] obtain m where m: "f s = Inr m" "P m" by auto
  from Cons.IH Cons.prems obtain ms where "shells_loop f ss = Inr ms" "length ms = length ss"
    "\<forall>m\<in>set ms. P m" by auto
  with m show ?case by simp
qed

lemma reshape3_index:
  assumes "i < a" "j < (b::nat)"
  shows "(i * b + j) * c + c \<le> a * b * c"
proof -
  have "(i + 1) * b \<le> a * b" using assms(1) by (intro mult_le_mono1) simp
  then have "i * b + b \<le> a * b" by (simp add: algebra_simps)
  with assms(2) have "i * b + j + 1 \<le> a * b" by arith
  then have "(i * b + j + 1) * c \<le> a * b * c" by (rule mult_le_mono1)
  then show ?thesis by (simp add: algebra_simps)
qed

lemma reshape3_shape:
  assumes "length xs = a * b * c"
  shows "\<exists>r. reshape3 a b c xs = Inr r \<and> shape3 a b c r"
proof -
  have "length (take c (drop ((i * b + j) * c) xs)) = c" if "i < a" "j < b" for i j
  proof -
    define k where "k = (i * b + j) * c"
    have "k + c \<le> length xs" unfolding k_def assms using that by (rule reshape3_index)
    then show ?thesis unfolding k_def [symmetric] by simp
  qed
  then show ?thesis using assms by (auto simp: reshape3_def shape3_def list_all_iff)
qed

lemma translate_mesh_points:
  "length c = 3 \<Longrightarrow> \<exists>m'. translate_mesh m [c] = Inr m' \<and> length (points m') = length (points m)"
  by (simp add: translate_mesh_def)

lemma prob_image_opt_points:
  "images_ok images \<Longrightarrow> \<exists>pd'. prob_image_opt pd images = Inr pd' \<and> points pd' = points pd"
  by (cases images) (simp_all add: images_ok_def prob_image_opt_def prob_image_points)

lemma interp1d_call_ok:
  "hd x \<le> s \<Longrightarrow> s \<le> last x \<Longrightarrow>
   \<exists>cs. interp1d_call x y s = Inr cs \<and> length cs = length y"
  by (simp add: interp1d_call_def)

lemma shell_at_ok:
  assumes s: "hd x \<le> s" "s \<le> last x"
    and len: "length coeffs = 2 * (L + 1)\<^sup>2"
    and cen: "centroids_ok centroids"
    and img: "images_ok images"
    and rec: "\<forall>c. shape3 2 (L + 1) (L + 1) c \<longrightarrow>
                (\<exists>m. reconstruct c = Some m \<and> length (points m) = grid_npts)"
  shows "\<exists>m. shell_at reconstruct (interp1d_call x coeffs) (int L)
                (map_option (interp1d_call x) centroids) images s = Inr m \<and>
             length (points m) = grid_npts"
proof -
  from interp1d_call_ok [OF s] obtain cs where cs: "interp1d_call x coeffs s = Inr cs"
    "length cs = length coeffs" by blast
  have "length cs = 2 * (L + 1) * (L + 1)"
    using cs(2) len by (simp add: power2_eq_square)
  from reshape3_shape [OF this] obtain r where r: "reshape3 2 (L + 1) (L + 1) cs = Inr r"
    "shape3 2 (L + 1) (L + 1) r" by blast
  from rec r(2) obtain m where m: "reconstruct r = Some m" "length (points m) = grid_npts"
    by blast
  have "\<exists>m'. (case map_option (interp1d_call x) centroids of
              None \<Rightarrow> Inr m
            | Some ci \<Rightarrow>
                (case ci s of
                   Inl e \<Rightarrow> Inl e
                 | Inr c \<Rightarrow> if length c = 3 then translate_mesh m [c] else Inl ValueError_reshape))
          = Inr m' \<and> length (points m') = grid_npts"
  proof (cases centroids)
    case None
    with m show ?thesis by simp
  next
    case (Some c)
    with cen have "length c = 3" by (simp add: centroids_ok_def)
    with interp1d_call_ok [OF s, of c] obtain cc where cc: "interp1d_call x c s = Inr cc"
      "length cc = 3" by auto
    from translate_mesh_points [OF cc(2), of m] obtain m' where
      "translate_mesh m [cc] = Inr m'" "length (points m') = length (points m)" by blast
    with m(2) cc Some show ?thesis by simp
  qed
  then obtain m' where m': "(case map_option (interp1d_call x) centroids of
              None \<Rightarrow> Inr m
            | Some ci \<Rightarrow>
                (case ci s of
                   Inl e \<Rightarrow> Inl e
                 | Inr c \<Rightarrow> if length c = 3 then translate_mesh m [c] else Inl ValueError_reshape))
          = Inr m'" "length (points m') = grid_npts" by blast
  from prob_image_opt_points [OF img, of m'] obtain m'' where
    m'': "prob_image_opt m' images = Inr m''" "points m'' = points m'" by blast
  have nat_l: "nat (int L + 1) = L + 1" by simp
  show ?thesis
    unfolding shell_at_def nat_l cs(1) sum.case r(1) m(1) option.case m'(1) m''(1)
    using m''(2) m'(2) by simp
qed

text \<open>
  C1. For coefficient mappings of equal length \<open>2 (L+1)\<^sup>2\<close>, band counts \<open>[n_nuc, n_mem]\<close>
  with a positive sum, valid optional arguments, and an external reconstruction routine that
  returns, for every coefficient array of shape \<open>(2, L+1, L+1)\<close>, a mesh with the point count
  \<open>grid_npts\<close> of its reconstruction grid: the function returns a shell sequence of exactly
  \<open>1 + n_nuc + n_mem\<close> meshes, and every mesh of the sequence has \<open>grid_npts\<close> points. Every
  shell is reconstructed from interpolated coefficients of the same shape; translation and
  probing keep the points.
\<close>

theorem shell_sequence_counts:
  assumes len: "length mem_coeffs = length nuc_coeffs"
    and shape: "length mem_coeffs = 2 * (L + 1)\<^sup>2"
    and nisos: "nisos = [n_nuc, n_mem]" "0 < n_nuc + n_mem"
    and cen: "centroids_ok centroids"
    and img: "images_ok images_to_probe"
    and rec: "\<forall>c. shape3 2 (L + 1) (L + 1) c \<longrightarrow>
                (\<exists>m. reconstruct c = Some m \<and> length (points m) = grid_npts)"
  shows "\<exists>meshes.
           get_equipotential_surfaces_from_sh_coeffs reconstruct mem_coeffs nuc_coeffs nisos
             centroids images_to_probe = Inr meshes \<and>
           length meshes = 1 + n_nuc + n_mem \<and>
           (\<forall>m\<in>set meshes. length (points m) = grid_npts)"
proof -
  define nc where "nc = length mem_coeffs"
  define x where "x = iso_values_of nisos"
  define coeffs where "coeffs = map (\<lambda>i. [(if i \<noteq> 0 then 0 else 1 :: real), map snd nuc_coeffs ! i,
      map snd mem_coeffs ! i]) [0..<nc]"
  from nisos(2) have pos: "real n_nuc + real n_mem \<noteq> 0"
    by (metis of_nat_add of_nat_0_eq_iff less_numeral_extra(3))
  have x: "length x = 3" "hd x = 0" "last x = 1"
    using pos by (simp_all add: x_def nisos(1) iso_values_pair)
  have lmax: "py_int (sqrt (real nc / 2) - 1) = int L"
    unfolding nc_def shape by (rule lmax_of_length)
  have c3: "np_c3 (map (\<lambda>i. if i \<noteq> 0 then 0 else 1) [0..<nc]) (map snd nuc_coeffs)
      (map snd mem_coeffs) = Inr coeffs"
    using len by (simp add: np_c3_def nc_def coeffs_def)
  have lenc: "length coeffs = 2 * (L + 1)\<^sup>2"
    using shape by (simp add: coeffs_def nc_def)
  have ci: "(case centroids of None \<Rightarrow> Inr None
      | Some c \<Rightarrow> (case interp1d x (last_dim c) c of Inl e \<Rightarrow> Inl e | Inr ci \<Rightarrow> Inr (Some ci)))
      = Inr (map_option (interp1d_call x) centroids)"
  proof (cases centroids)
    case None
    then show ?thesis by simp
  next
    case (Some c)
    with cen have "last_dim c = 3"
      by (cases c) (simp_all add: centroids_ok_def last_dim_def)
    with Some x(1) show ?thesis by (simp add: interp1d_def)
  qed
  have "\<exists>m. shell_at reconstruct (interp1d_call x coeffs) (int L)
                (map_option (interp1d_call x) centroids) images_to_probe s = Inr m \<and>
             length (points m) = grid_npts"
    if "s \<in> set (linspace01 (1 + sum_list nisos))" for s
  proof -
    from linspace01_range [OF that] have "hd x \<le> s" "s \<le> last x" by (simp_all add: x)
    then show ?thesis by (rule shell_at_ok [OF _ _ lenc cen img rec])
  qed
  from shells_loop_all [of "linspace01 (1 + sum_list nisos)"
      "shell_at reconstruct (interp1d_call x coeffs) (int L)
         (map_option (interp1d_call x) centroids) images_to_probe"
      "\<lambda>m. length (points m) = grid_npts", OF this]
  obtain ms where ms: "shells_loop (shell_at reconstruct (interp1d_call x coeffs) (int L)
         (map_option (interp1d_call x) centroids) images_to_probe)
         (linspace01 (1 + sum_list nisos)) = Inr ms"
    "length ms = length (linspace01 (1 + sum_list nisos))"
    "\<forall>m\<in>set ms. length (points m) = grid_npts" by blast
  have "get_equipotential_surfaces_from_sh_coeffs reconstruct mem_coeffs nuc_coeffs nisos
             centroids images_to_probe = Inr ms"
    unfolding get_equipotential_surfaces_from_sh_coeffs_def Let_def
      nc_def [symmetric] x_def [symmetric] lmax c3 ci
    using len x(1) ms(1) by (simp add: nc_def interp1d_def)
  moreover have "length ms = 1 + n_nuc + n_mem"
    using ms(2) nisos(1) by (simp add: linspace01_length)
  ultimately show ?thesis using ms(3) by blast
qed

theorem shell_sequence_counts_witness:
  "length [(''m0'', 4 :: real), (''m1'', 0)] = length [(''n0'', 2 :: real), (''n1'', 0)] \<and>
   length [(''m0'', 4 :: real), (''m1'', 0)] = 2 * (0 + 1)\<^sup>2 \<and>
   (\<exists>meshes.
      get_equipotential_surfaces_from_sh_coeffs
        (\<lambda>c. Some \<lparr>points = [(c ! 0 ! 0 ! 0, 0, 0), (0, c ! 1 ! 0 ! 0, 0)], lines = [], point_data = []\<rparr>)
        [(''m0'', 4), (''m1'', 0)] [(''n0'', 2), (''n1'', 0)] [1, 2] None None = Inr meshes \<and>
      length meshes = 4 \<and> list_all (\<lambda>m. length (points m) = 2) meshes)"
proof -
  let ?R = "\<lambda>c :: real arr3.
    Some \<lparr>points = [(c ! 0 ! 0 ! 0, 0, 0), (0, c ! 1 ! 0 ! 0, 0)], lines = [], point_data = []\<rparr>"
  have "\<exists>meshes. get_equipotential_surfaces_from_sh_coeffs ?R
        [(''m0'', 4), (''m1'', 0)] [(''n0'', 2), (''n1'', 0)] [1, 2] None None = Inr meshes \<and>
      length meshes = 1 + 1 + 2 \<and> (\<forall>m\<in>set meshes. length (points m) = 2)"
    by (rule shell_sequence_counts [where L = 0])
      (simp_all add: centroids_ok_def images_ok_def)
  then obtain meshes where "get_equipotential_surfaces_from_sh_coeffs ?R
        [(''m0'', 4), (''m1'', 0)] [(''n0'', 2), (''n1'', 0)] [1, 2] None None = Inr meshes"
    "length meshes = 1 + 1 + 2" "\<forall>m\<in>set meshes. length (points m) = 2" by blast
  then have "get_equipotential_surfaces_from_sh_coeffs ?R
        [(''m0'', 4), (''m1'', 0)] [(''n0'', 2), (''n1'', 0)] [1, 2] None None = Inr meshes \<and>
      length meshes = 4 \<and> list_all (\<lambda>m. length (points m) = 2) meshes"
    by (simp add: list_all_iff)
  then show ?thesis by auto
qed

lemma vol_min_not_coeffs: "vol_min img \<noteq> Inl (ValueError_coeffs a b)"
  by (simp add: vol_min_def split: list.split)

lemma prob_image_not_coeffs: "prob_image pd images \<noteq> Inl (ValueError_coeffs a b)"
proof (induction images arbitrary: pd)
  case Nil
  then show ?case by simp
next
  case (Cons im images)
  obtain img name where im: "im = (img, name)" by (cases im)
  show ?case
  proof (cases "vol_min img")
    case (Inl e)
    with vol_min_not_coeffs [of img a b] show ?thesis by (simp add: im)
  next
    case (Inr vmin)
    then show ?thesis by (simp add: im Cons.IH)
  qed
qed

lemma prob_image_opt_not_coeffs: "prob_image_opt pd images \<noteq> Inl (ValueError_coeffs a b)"
  by (cases images) (simp_all add: prob_image_opt_def prob_image_not_coeffs)

lemma interp1d_call_not_coeffs: "interp1d_call x y s \<noteq> Inl (ValueError_coeffs a b)"
  by (simp add: interp1d_call_def)

lemma shell_at_not_coeffs:
  assumes "\<And>s. ci s \<noteq> Inl (ValueError_coeffs a b)"
    and "\<And>cj s. cen = Some cj \<Longrightarrow> cj s \<noteq> Inl (ValueError_coeffs a b)"
  shows "shell_at reconstruct ci lmax cen images s \<noteq> Inl (ValueError_coeffs a b)"
  using assms(1) [of s] assms(2)
  by (auto simp: shell_at_def reshape3_def translate_mesh_def prob_image_opt_not_coeffs
      split: sum.splits option.splits if_splits)

lemma shells_loop_not_coeffs:
  assumes "\<And>s. f s \<noteq> Inl (ValueError_coeffs a b)"
  shows "shells_loop f ss \<noteq> Inl (ValueError_coeffs a b)"
  using assms by (induction ss) (auto split: sum.splits)

text \<open>
  C2. When the two coefficient mappings differ in length, the function raises the length
  error, and does so before anything else: the result is that error whatever the
  reconstruction routine, the band counts, the centroids and the images are (none of them is
  looked at, and a reconstruction routine that fails changes nothing). When the lengths are
  equal, the length error is not raised.
\<close>

theorem coeff_length_mismatch_raises_first:
  "(length mem_coeffs \<noteq> length nuc_coeffs \<longrightarrow>
      get_equipotential_surfaces_from_sh_coeffs reconstruct mem_coeffs nuc_coeffs nisos centroids
        images_to_probe = Inl (ValueError_coeffs (length mem_coeffs) (length nuc_coeffs)) \<and>
      get_equipotential_surfaces_from_sh_coeffs reconstruct mem_coeffs nuc_coeffs nisos centroids
        images_to_probe =
      get_equipotential_surfaces_from_sh_coeffs reconstruct' mem_coeffs nuc_coeffs nisos' centroids'
        images_to_probe') \<and>
   (length mem_coeffs = length nuc_coeffs \<longrightarrow>
      get_equipotential_surfaces_from_sh_coeffs reconstruct mem_coeffs nuc_coeffs nisos centroids
        images_to_probe \<noteq> Inl (ValueError_coeffs a b))"
proof (intro conjI impI)
  assume "length mem_coeffs \<noteq> length nuc_coeffs"
  then show "get_equipotential_surfaces_from_sh_coeffs reconstruct mem_coeffs nuc_coeffs nisos
      centroids images_to_probe = Inl (ValueError_coeffs (length mem_coeffs) (length nuc_coeffs))"
    and "get_equipotential_surfaces_from_sh_coeffs reconstruct mem_coeffs nuc_coeffs nisos centroids
        images_to_probe =
      get_equipotential_surfaces_from_sh_coeffs reconstruct' mem_coeffs nuc_coeffs nisos' centroids'
        images_to_probe'"
    by (simp_all add: get_equipotential_surfaces_from_sh_coeffs_def Let_def)
next
  assume eq: "length mem_coeffs = length nuc_coeffs"
  define x where "x = iso_values_of nisos"
  define lmax where "lmax = py_int (sqrt (real (length mem_coeffs) / 2) - 1)"
  define coeffs where "coeffs = map (\<lambda>i. [map (\<lambda>i. if i \<noteq> 0 then 0 else 1 :: real) [0..<length mem_coeffs] ! i,
      map snd nuc_coeffs ! i, map snd mem_coeffs ! i]) [0..<length mem_coeffs]"
  have c3: "np_c3 (map (\<lambda>i. if i \<noteq> 0 then 0 else 1) [0..<length mem_coeffs]) (map snd nuc_coeffs)
      (map snd mem_coeffs) = Inr coeffs"
    using eq by (simp add: np_c3_def coeffs_def)
  have loop: "shells_loop (shell_at reconstruct (interp1d_call x coeffs) lmax cen images_to_probe) ss
      \<noteq> Inl (ValueError_coeffs a b)"
    if "cen = None \<or> (\<exists>c. cen = Some (interp1d_call x c))" for cen ss
  proof (rule shells_loop_not_coeffs, rule shell_at_not_coeffs)
    show "interp1d_call x coeffs s \<noteq> Inl (ValueError_coeffs a b)" for s
      by (rule interp1d_call_not_coeffs)
    show "cj s \<noteq> Inl (ValueError_coeffs a b)" if "cen = Some cj" for cj s
      using that \<open>cen = None \<or> (\<exists>c. cen = Some (interp1d_call x c))\<close>
      by (auto simp: interp1d_call_not_coeffs)
  qed
  have unf: "get_equipotential_surfaces_from_sh_coeffs reconstruct mem_coeffs nuc_coeffs nisos
      centroids images_to_probe =
      (case interp1d x 3 coeffs of
         Inl e \<Rightarrow> Inl e
       | Inr coeffs_interpolator \<Rightarrow>
           (case (case centroids of
                    None \<Rightarrow> Inr None
                  | Some c \<Rightarrow>
                      (case interp1d x (last_dim c) c of
                         Inl e \<Rightarrow> Inl e
                       | Inr ci \<Rightarrow> Inr (Some ci))) of
              Inl e \<Rightarrow> Inl e
            | Inr centroids_interpolator \<Rightarrow>
                shells_loop
                  (shell_at reconstruct coeffs_interpolator lmax
                     centroids_interpolator images_to_probe)
                  (linspace01 (1 + sum_list nisos))))"
    unfolding get_equipotential_surfaces_from_sh_coeffs_def Let_def c3 x_def lmax_def
    using eq by simp
  show "get_equipotential_surfaces_from_sh_coeffs reconstruct mem_coeffs nuc_coeffs nisos centroids
        images_to_probe \<noteq> Inl (ValueError_coeffs a b)"
  proof (cases "length x = 3")
    case False
    then show ?thesis unfolding unf by (simp add: interp1d_def)
  next
    case True
    show ?thesis
    proof (cases centroids)
      case None
      have "shells_loop (shell_at reconstruct (interp1d_call x coeffs) lmax
               None images_to_probe) ss \<noteq> Inl (ValueError_coeffs a b)" for ss
        by (rule loop) blast
      with True None show ?thesis unfolding unf by (simp add: interp1d_def)
    next
      case (Some c)
      show ?thesis
      proof (cases "length x = last_dim c")
        case False
        with True Some show ?thesis unfolding unf by (simp add: interp1d_def)
      next
        case l: True
        have "shells_loop (shell_at reconstruct (interp1d_call x coeffs) lmax
                 (Some (interp1d_call x c)) images_to_probe) ss \<noteq> Inl (ValueError_coeffs a b)" for ss
          by (rule loop) blast
        with True l Some show ?thesis
          unfolding unf by (simp add: interp1d_def)
      qed
    qed
  qed
qed

theorem coeff_length_mismatch_raises_first_witness:
  "get_equipotential_surfaces_from_sh_coeffs (\<lambda>c. None) [(''m0'', 4)] [(''n0'', 2), (''n1'', 0)]
     [1, 2] None None = Inl (ValueError_coeffs 1 2) \<and>
   get_equipotential_surfaces_from_sh_coeffs (\<lambda>c. None) [(''m0'', 4), (''m1'', 0)]
     [(''n0'', 2), (''n1'', 0)] [1, 2] None None \<noteq> Inl (ValueError_coeffs 2 2)"
  using coeff_length_mismatch_raises_first [where mem_coeffs = "[(''m0'', 4)]"
      and nuc_coeffs = "[(''n0'', 2), (''n1'', 0)]" and reconstruct = "\<lambda>c. None"
      and nisos = "[1, 2]" and centroids = None and images_to_probe = None]
    coeff_length_mismatch_raises_first [where mem_coeffs = "[(''m0'', 4), (''m1'', 0)]"
      and nuc_coeffs = "[(''n0'', 2), (''n1'', 0)]" and reconstruct = "\<lambda>c. None"
      and nisos = "[1, 2]" and centroids = None and images_to_probe = None and a = 2 and b = 2]
  by simp

section \<open>Properties of \<^verbatim>\<open>parametrize\<close>\<close>

text \<open>
  C10. \<open>parametrize\<close> ignores its arguments \<open>lmax\<close> and \<open>sigma\<close>: the descriptor fit is only
  ever called with degree 32 and sigma 1 (and \<open>compute_lcc = True\<close>,
  \<open>alignment_2d = False\<close>), so two calls that differ only in \<open>lmax\<close> and \<open>sigma\<close>, with fits
  that agree on these hardcoded arguments, return the same meshes and traces, or the same
  error.
\<close>

theorem parametrize_ignores_lmax_sigma:
  assumes "\<forall>img. get_shcoeffs img 32 1 True False = get_shcoeffs' img 32 1 True False"
  shows "parametrize get_shcoeffs reconstruct seg_mem seg_nuc lmax sigma nisos images_to_probe =
         parametrize get_shcoeffs' reconstruct seg_mem seg_nuc lmax' sigma' nisos images_to_probe"
  unfolding parametrize_def assms [rule_format] ..

theorem parametrize_ignores_lmax_sigma_witness:
  "parametrize
     (\<lambda>img l sg lcc al. if l = 32 \<and> sg = 1 then Some ([(''c0'', 1), (''c1'', 0)], [0, 0, 0]) else None)
     (\<lambda>c. None) [[[1]]] [[[1]]] 16 2 [1, 1] None =
   parametrize
     (\<lambda>img l sg lcc al. Some ([(''c0'', 1), (''c1'', 0)], [0, 0, 0]))
     (\<lambda>c. None) [[[1]]] [[[1]]] 8 3 [1, 1] None"
  using parametrize_ignores_lmax_sigma [of
      "\<lambda>img l sg lcc al. if l = 32 \<and> sg = 1 then Some ([(''c0'', 1), (''c1'', 0)], [0, 0, 0]) else None"
      "\<lambda>img l sg lcc al. Some ([(''c0'', 1), (''c1'', 0)], [0, 0, 0])"
      "\<lambda>c. None" "[[[1]]]" "[[[1]]]" 16 2 "[1, 1]" None 8 3]
  by simp

section \<open>Properties of \<^verbatim>\<open>get_geodesics\<close>\<close>

lemma geodesic_bins_2: "geodesic_bins 2 = Inr [1, 0]"
proof -
  have "linspace01 2 = [0, 1]" by (simp add: linspace01_def upt_rec)
  moreover have "exp 1 - (1::real) \<noteq> 0" by simp
  moreover have "min (exp 1) (1::real) = 1" "max (exp 1) (1::real) = exp 1" by simp_all
  ultimately show ?thesis by (simp add: geodesic_bins_def amin_def amax_def Let_def)
qed

lemma funpow_fixed: "f x = x \<Longrightarrow> (f ^^ n) x = x"
  by (induction n) simp_all

text \<open>
  On an array of one plane the interior slice \<^verbatim>\<open>[1:-1]\<close> is empty, and the step changes
  nothing.
\<close>

lemma heat_eq_step_one_plane: "heat_eq_step ar [[r]] = [[r]]"
  by (simp add: heat_eq_step_def Let_def iadd_slice3_def slice3_def ew3_def div3_def
      upd_slice_def py_slice_def slice_bounds_def clip_bound_def)

text \<open>
  The stages of \<^verbatim>\<open>get_geodesics\<close> on the volume of shape \<open>(2, 2, 6)\<close> used below.
\<close>

lemma ex_crop:
  "get_croppped_version
     [[[1, 1, 1, 1, 1, 1], [1, 1, 1, 1, 1, 1]], [[1, 1, 1, 1, 1, 1], [1, 1, 1, 1, 1, 1]]]
     [[[0, 1, 1, 0, 0, 0], [0, 0, 0, 0, 0, 0]], [[0, 0, 0, 0, 0, 0], [0, 0, 0, 0, 0, 0]]] =
   Inr ([[[1, 1, 1, 1, 1]]], [[[0, 1, 1, 0, 0]]], (0, 1, 0, 1, 0, 5))"
  by code_simp

lemma ex_centroid: "nuclear_centroid [[[1, 2, 2, 1, 1]]] = Inr (0, 0, 1)"
  by code_simp

lemma ex_where:
  "where_true [[[False, False, False, False, False]]] = []"
  "where_true [[[True, True, True, True, False]]] = [(0, 0, 0), (0, 0, 1), (0, 0, 2), (0, 0, 3)]"
  "where_true [[[True, True, True, True, True]]] =
     [(0, 0, 0), (0, 0, 1), (0, 0, 2), (0, 0, 3), (0, 0, 4)]"
  by code_simp+

lemma ex_dirichlet:
  "dirichlet t0 t1 t2 [(0, 0, 0), (0, 0, 1), (0, 0, 2), (0, 0, 3), (0, 0, 4)]
     [(0, 0, 0), (0, 0, 1), (0, 0, 2), (0, 0, 3)] [] [[[a, b, c, d, e]]] =
   [[[t1, t1, t1, t1, t0]]]"
  by (simp add: dirichlet_def assign_at_def set3_def)

lemma ex_bands:
  "fill_unresolved (astype_uint8 (set3 (0, 0, 1) 1
     (digitize_bands 2 [0, 1] [[[1, 2, 2, 1, 1]]] [[[1, 1, 1, 1, 0]]]))) = Inr [[[4, 1, 3, 4, 3]]]"
  by code_simp

lemma ex_write:
  "map (map (map (\<lambda>u. if u = 0 then amax 4 [1, 3, 4, 3] else u)))
     (assign_slice3 (Some (int 0), Some (int 1)) (Some (int 0), Some (int 1))
        (Some (int 0), Some (int 5))
        [[[0, 0, 0, 0, 0, 0], [0, 0, 0, 0, 0, 0]], [[0, 0, 0, 0, 0, 0], [0, 0, 0, 0, 0, 0]]]
        [[[4, 1, 3, 4, 3 :: nat]]]) =
   [[[4, 1, 3, 4, 3, 4], [4, 4, 4, 4, 4, 4]], [[4, 4, 4, 4, 4, 4], [4, 4, 4, 4, 4, 4]]]"
  by code_simp

text \<open>
  C4 (the code departs from the claim). Take \<open>nisos = 2\<close>, \<open>seg_mem\<close> the volume of shape
  \<open>(2, 2, 6)\<close> of ones, and \<open>seg_dna\<close> zero except at \<open>(0, 0, 1)\<close> and \<open>(0, 0, 2)\<close>. The crop keeps
  the row \<open>z = 0, y = 0, x = 0..4\<close>, with labels \<open>[1, 2, 2, 1, 1]\<close>. On that row the library
  routines give: no boundary of \<^verbatim>\<open>mask>0\<close> (every voxel is set), the thick boundary
  \<open>x = 0..3\<close> of \<^verbatim>\<open>mask>1\<close>, and a dilated centroid that covers the row; the distance
  transform returns an array of the shape of the row. Then for every float64 arithmetic and
  every value of \<open>dmax\<close>, \<^verbatim>\<open>get_geodesics\<close> returns the volume whose first row is
  \<open>[4, 1, 3, 4, 3, 4]\<close> and whose other voxels are 4. The cytoplasm voxel \<open>(0, 0, 4)\<close> lies in
  the frozen region, keeps the field value \<open>tmin\<close> with logarithm 0, digitizes to 0 and
  receives the band \<open>nisos + 1 = 3\<close>; the nucleus voxel \<open>(0, 0, 2)\<close> on the nuclear boundary
  has the field value \<open>tmid\<close> with logarithm 1, digitizes to \<open>nisos\<close> and receives the same
  band 3. The claim promises every cytoplasm voxel a band strictly greater than every
  nucleus band; the offsets \<open>1\<close> and \<open>nisos + 1\<close> of lines 111 and 113 give the ranges
  \<open>1..nisos+1\<close> and \<open>nisos+1..2*nisos+1\<close>, which share \<open>nisos + 1\<close>.
\<close>

theorem get_geodesics_bands_overlap:
  assumes edt: "shape3 1 1 5 (distance_transform_edt [[[True, True, True, True, True]]])"
    and warms: "find_boundaries [[[True, True, True, True, True]]] =
                  [[[False, False, False, False, False]]]"
    and colds: "find_boundaries [[[False, True, True, False, False]]] =
                  [[[True, True, True, True, False]]]"
    and freez: "binary_dilation [[[False, True, False, False, False]]] =
                  [[[True, True, True, True, True]]]"
  shows "get_geodesics ar distance_transform_edt find_boundaries binary_dilation
           [[[1, 1, 1, 1, 1, 1], [1, 1, 1, 1, 1, 1]], [[1, 1, 1, 1, 1, 1], [1, 1, 1, 1, 1, 1]]]
           [[[0, 1, 1, 0, 0, 0], [0, 0, 0, 0, 0, 0]], [[0, 0, 0, 0, 0, 0], [0, 0, 0, 0, 0, 0]]] 2 =
         Inr [[[4, 1, 3, 4, 3, 4], [4, 4, 4, 4, 4, 4]], [[4, 4, 4, 4, 4, 4], [4, 4, 4, 4, 4, 4]]]"
proof -
  from edt obtain r where "distance_transform_edt [[[True, True, True, True, True]]] = [[r]]"
    and "length r = 5"
    by (auto simp: shape3_def length_Suc_conv)
  then obtain d ds where
    e: "concat (concat (distance_transform_edt [[[True, True, True, True, True]]])) = d # ds"
    by (cases r) auto
  let ?fi = "[(0, 0, 0), (0, 0, 1), (0, 0, 2), (0, 0, 3), (0, 0, 4)] :: (nat \<times> nat \<times> nat) list"
  let ?ci = "[(0, 0, 0), (0, 0, 1), (0, 0, 2), (0, 0, 3)] :: (nat \<times> nat \<times> nat) list"
  let ?o = "[[[exp 1, exp 1, exp 1, exp 1, exp 0 :: real]]]"
  have fx: "(\<lambda>w. dirichlet (exp 0) (exp 1) (exp 2) ?fi ?ci [] (heat_eq_step ar w)) ?o = ?o"
    unfolding heat_eq_step_one_plane by (rule ex_dirichlet)
  have loop: "((\<lambda>w. dirichlet (exp 0) (exp 1) (exp 2) ?fi ?ci [] (heat_eq_step ar w)) ^^ n) ?o = ?o" for n
    by (rule funpow_fixed) (rule fx)
  have lab: "ew3 (\<lambda>m d. (if 0 < m then 1 else 0) + (if 0 < d then 1 else 0))
      [[[1, 1, 1, 1, 1 :: int]]] [[[0, 1, 1, 0, 0 :: int]]] = [[[1, 2, 2, 1, 1 :: nat]]]"
    by (simp add: ew3_def)
  have m0: "map (map (map (\<lambda>m. 0 < m))) [[[1, 2, 2, 1, 1 :: nat]]] =
      [[[True, True, True, True, True]]]"
    and m1: "map (map (map (\<lambda>m. 1 < m))) [[[1, 2, 2, 1, 1 :: nat]]] =
      [[[False, True, True, False, False]]]"
    by simp_all
  have init: "map (map (map (\<lambda>_. exp 1 * 1))) [[[1, 2, 2, 1, 1 :: nat]]] =
      [[[exp 1, exp 1, exp 1, exp 1, exp 1 :: real]]]"
    by simp
  have seed: "set3 (0, 0, 1) True
      (map (map (map (\<lambda>_. False))) [[[True, True, True, True, False]]]) =
      [[[False, True, False, False, False]]]"
    by (simp add: set3_def)
  have post: "map (map (map (\<lambda>w. if 0 < w then ln w else w)))
      (ew3 (\<lambda>m w. if m = 0 then 0 else w) [[[1, 2, 2, 1, 1 :: nat]]] ?o) =
      [[[1, 1, 1, 1, 0]]]"
    by (simp add: ew3_def)
  have rv: "rev [1, 0 :: real] = [0, 1]" by simp
  have cc: "concat (concat [[[4, 1, 3, 4, 3 :: nat]]]) = [4, 1, 3, 4, 3]" by simp
  have zeros: "map (map (map (\<lambda>_. 0 :: nat)))
      [[[1, 1, 1, 1, 1, 1], [1, 1, 1, 1, 1, 1]], [[1, 1, 1, 1, 1, 1], [1, 1, 1, 1, 1, 1 :: int]]] =
      [[[0, 0, 0, 0, 0, 0], [0, 0, 0, 0, 0, 0]], [[0, 0, 0, 0, 0, 0], [0, 0, 0, 0, 0, 0]]]"
    by simp
  show ?thesis
    unfolding get_geodesics_def Let_def ex_crop sum.case prod.case lab m0 m1 e list.case init
      warms colds ex_centroid seed freez ex_where ex_dirichlet loop post geodesic_bins_2 rv
      ex_bands cc zeros ex_write ..
qed

theorem get_geodesics_bands_overlap_witness:
  "shape3 1 1 5
     ((\<lambda>m. map (map (map (\<lambda>b. if b then 1 else 0 :: real))) m)
        [[[True, True, True, True, True]]]) \<and>
   (\<lambda>m. if m = [[[False, True, True, False, False]]] then [[[True, True, True, True, False]]]
        else map (map (map (\<lambda>_. False))) m) [[[True, True, True, True, True]]] =
     [[[False, False, False, False, False]]] \<and>
   (\<lambda>m. if m = [[[False, True, True, False, False]]] then [[[True, True, True, True, False]]]
        else map (map (map (\<lambda>_. False))) m) [[[False, True, True, False, False]]] =
     [[[True, True, True, True, False]]] \<and>
   (\<lambda>m. map (map (map (\<lambda>_. True))) m) [[[False, True, False, False, False]]] =
     [[[True, True, True, True, True]]] \<and>
   get_geodesics f64
     (\<lambda>m. map (map (map (\<lambda>b. if b then 1 else 0))) m)
     (\<lambda>m. if m = [[[False, True, True, False, False]]] then [[[True, True, True, True, False]]]
          else map (map (map (\<lambda>_. False))) m)
     (\<lambda>m. map (map (map (\<lambda>_. True))) m)
     [[[1, 1, 1, 1, 1, 1], [1, 1, 1, 1, 1, 1]], [[1, 1, 1, 1, 1, 1], [1, 1, 1, 1, 1, 1]]]
     [[[0, 1, 1, 0, 0, 0], [0, 0, 0, 0, 0, 0]], [[0, 0, 0, 0, 0, 0], [0, 0, 0, 0, 0, 0]]] 2 =
   Inr [[[4, 1, 3, 4, 3, 4], [4, 4, 4, 4, 4, 4]], [[4, 4, 4, 4, 4, 4], [4, 4, 4, 4, 4, 4]]]"
proof -
  let ?edt = "\<lambda>m :: bool arr3. map (map (map (\<lambda>b. if b then 1 else 0 :: real))) m"
  let ?fb = "\<lambda>m. if m = [[[False, True, True, False, False]]]
        then [[[True, True, True, True, False]]] else map (map (map (\<lambda>_. False))) m"
  let ?bd = "\<lambda>m :: bool arr3. map (map (map (\<lambda>_. True))) m"
  have h1: "shape3 1 1 5 (?edt [[[True, True, True, True, True]]])" by (simp add: shape3_def)
  have h2: "?fb [[[True, True, True, True, True]]] = [[[False, False, False, False, False]]]"
    by simp
  have h3: "?fb [[[False, True, True, False, False]]] = [[[True, True, True, True, False]]]"
    by simp
  have h4: "?bd [[[False, True, False, False, False]]] = [[[True, True, True, True, True]]]"
    by simp
  from h1 h2 h3 h4 get_geodesics_bands_overlap [of ?edt ?fb ?bd f64, OF h1 h2 h3 h4]
  show ?thesis by blast
qed

end
